theory Spec2Isabelle
  imports Complex_Main "HOL-Library.While_Combinator"
begin

section \<open>Poisson disc sampling: the data model\<close>

text \<open>
  A shallow embedding of \<^verbatim>\<open>PoissonDisc.cpp\<close> and \<^verbatim>\<open>PoissonDisc.h\<close>.

  Conventions of the embedding.
  \<^item> \<^verbatim>\<open>int\<close> (Irrlicht's \<^verbatim>\<open>s32\<close>) is \<open>int\<close>, \<^verbatim>\<open>u32\<close> is \<open>nat\<close>; where the source mixes
    the two in one expression the conversion to \<^verbatim>\<open>unsigned\<close> is written out (\<open>u32\<close>),
    and so is the conversion back (\<open>s32\<close>). Plain \<^verbatim>\<open>int\<close> arithmetic on tile indices is
    taken without overflow; the increment of the point counter is checked.
  \<^item> \<^verbatim>\<open>float\<close> and \<^verbatim>\<open>double\<close> values are real numbers: arithmetic is exact, and
    \<^verbatim>\<open>sqrt(2)\<close>, \<^verbatim>\<open>cos\<close>, \<^verbatim>\<open>sin\<close>, \<^verbatim>\<open>M_PI\<close> are the real functions and \<open>pi\<close>.
    The rounding of single and double precision is not part of the model, so the model
    and the program can disagree on the tile of a coordinate next to a tile border and on
    the last digit of a generated coordinate.
    The implicit conversion of a floating value to \<^verbatim>\<open>int\<close> truncates toward zero and has
    no defined result when the truncated value is not an \<^verbatim>\<open>int\<close>, or when the floating value
    is the infinity or the NaN a division by zero gives.
  \<^item> Undefined behaviour (a vector read or written outside its size, an undefined
    conversion, \<^verbatim>\<open>front()\<close> on an empty queue, the overflow of the point counter) is the
    \<open>Inl\<close> branch of a sum type: the call stops there.
  \<^item> \<^verbatim>\<open>CustomRandom::Range\<close> is not part of the sources; it is a parameter of the model:
    a function from the number of calls made so far and the two bounds to the value returned.
  \<^item> The outer \<^verbatim>\<open>while\<close> loop is \<open>while_option\<close>: \<open>None\<close> is a loop that never ends.
\<close>

type_synonym vector2di = "int \<times> int"

record dimension2du =
  Width :: nat
  Height :: nat

datatype Shape = eRectangle | eEllipse

record MapSection =
  shape :: Shape
  centerTile :: vector2di
  dimensions :: dimension2du

type_synonym ListOfPoints = "vector2di list"
type_synonym GridOfPoints = "ListOfPoints list"
type_synonym QueueOfPoints = "vector2di list"

record PointGrid2D =
  grid :: GridOfPoints
  gridDimensions :: dimension2du

datatype undefined_behaviour =
  VectorIndexOutOfRange | FloatToIntOutOfRange | FrontOfEmptyQueue | SignedIntegerOverflow

type_synonym random_source = "nat \<Rightarrow> real \<Rightarrow> real \<Rightarrow> real"

definition MAX_INT :: int where
  "MAX_INT = 2147483647"

definition POINTS_PER_LOOP :: nat where
  "POINTS_PER_LOOP = 30"

subsection \<open>Conversions\<close>

definition u32 :: "int \<Rightarrow> int" where
  "u32 z = z mod 4294967296"

definition s32 :: "int \<Rightarrow> int" where
  "s32 z = (z + 2147483648) mod 4294967296 - 2147483648"

definition float_to_int :: "real \<Rightarrow> undefined_behaviour + int" where
  "float_to_int r =
     (let t = (if 0 \<le> r then \<lfloor>r\<rfloor> else \<lceil>r\<rceil>)
      in if - 2147483648 \<le> t \<and> t \<le> 2147483647 then Inr t else Inl FloatToIntOutOfRange)"

text \<open>\<^verbatim>\<open>int n = a / b\<close> on floating values: the quotient by zero is an infinity or a NaN.\<close>

definition float_div_to_int :: "real \<Rightarrow> real \<Rightarrow> undefined_behaviour + int" where
  "float_div_to_int a b = (if b = 0 then Inl FloatToIntOutOfRange else float_to_int (a / b))"

text \<open>\<^verbatim>\<open>int n = ceil(a / b)\<close> on floating values.\<close>

definition ceil_div_to_int :: "real \<Rightarrow> real \<Rightarrow> undefined_behaviour + int" where
  "ceil_div_to_int a b =
     (if b = 0 then Inl FloatToIntOutOfRange else float_to_int (of_int \<lceil>a / b\<rceil>))"

text \<open>
  Modelled from the spec: \<^verbatim>\<open>vector2di::getDistanceFrom\<close> belongs to the Irrlicht engine and
  is not in the sources; the spec has distance comparisons use the exact Euclidean distance.
\<close>

definition getDistanceFrom :: "vector2di \<Rightarrow> vector2di \<Rightarrow> real" where
  "getDistanceFrom a b =
     sqrt (of_int ((fst a - fst b) * (fst a - fst b) + (snd a - snd b) * (snd a - snd b)))"

section \<open>The operations\<close>

subsection \<open>PointToGridTile\<close>

definition PointToGridTile :: "vector2di \<Rightarrow> real \<Rightarrow> undefined_behaviour + vector2di" where
  "PointToGridTile point cellSize =
     (case float_div_to_int (of_int (fst point)) cellSize of
        Inl e \<Rightarrow> Inl e
      | Inr tileX \<Rightarrow>
          (case float_div_to_int (of_int (snd point)) cellSize of
             Inl e \<Rightarrow> Inl e
           | Inr tileY \<Rightarrow> Inr (tileX, tileY)))"

subsection \<open>GenerateRandomPointAroundPoint\<close>

text \<open>The two calls of \<^verbatim>\<open>Range(0.f, 1.f)\<close> are calls number \<open>n\<close> and \<open>n + 1\<close>.\<close>

definition GenerateRandomPointAroundPoint ::
  "random_source \<Rightarrow> nat \<Rightarrow> vector2di \<Rightarrow> int \<Rightarrow> undefined_behaviour + vector2di" where
  "GenerateRandomPointAroundPoint rng n point minimumDistance =
     (let distanceFromCenter = of_int minimumDistance * (1 + rng n 0 1);
          angle = 2 * pi * rng (n + 1) 0 1
      in case float_to_int (of_int (fst point) + distanceFromCenter * cos angle) of
           Inl e \<Rightarrow> Inl e
         | Inr newPointX \<Rightarrow>
             (case float_to_int (of_int (snd point) + distanceFromCenter * sin angle) of
                Inl e \<Rightarrow> Inl e
              | Inr newPointY \<Rightarrow> Inr (newPointX, newPointY)))"

subsection \<open>InsideRectangle\<close>

text \<open>
  In \<^verbatim>\<open>point.X < offset.X + dimensions.Width\<close> the right operand is \<^verbatim>\<open>unsigned\<close>, so both
  sides are compared as \<^verbatim>\<open>unsigned\<close> values.
\<close>

definition InsideRectangle :: "vector2di \<Rightarrow> vector2di \<Rightarrow> dimension2du \<Rightarrow> bool" where
  "InsideRectangle point offset dims =
     (fst point \<ge> fst offset \<and> u32 (fst point) < u32 (fst offset + int (Width dims)) \<and>
      snd point \<ge> snd offset \<and> u32 (snd point) < u32 (snd offset + int (Height dims)))"

subsection \<open>The acceleration grid\<close>

text \<open>\<^verbatim>\<open>pointGrid.grid[tile.X][tile.Y]\<close>, read and written; the vector does not check its index.\<close>

definition grid_read :: "GridOfPoints \<Rightarrow> vector2di \<Rightarrow> undefined_behaviour + vector2di" where
  "grid_read g tile =
     (if 0 \<le> fst tile \<and> nat (fst tile) < length g \<and>
         0 \<le> snd tile \<and> nat (snd tile) < length (g ! nat (fst tile))
      then Inr (g ! nat (fst tile) ! nat (snd tile))
      else Inl VectorIndexOutOfRange)"

definition grid_write ::
  "GridOfPoints \<Rightarrow> vector2di \<Rightarrow> vector2di \<Rightarrow> undefined_behaviour + GridOfPoints" where
  "grid_write g tile p =
     (if 0 \<le> fst tile \<and> nat (fst tile) < length g \<and>
         0 \<le> snd tile \<and> nat (snd tile) < length (g ! nat (fst tile))
      then Inr (g[nat (fst tile) := (g ! nat (fst tile))[nat (snd tile) := p]])
      else Inl VectorIndexOutOfRange)"

subsection \<open>GetPointsAroundTile\<close>

text \<open>The body of the \<^verbatim>\<open>for\<close> loop over \<^verbatim>\<open>tileNumber\<close>, run on the tile numbers left.\<close>

fun around_loop ::
  "vector2di \<Rightarrow> PointGrid2D \<Rightarrow> nat list \<Rightarrow> ListOfPoints \<Rightarrow> undefined_behaviour + ListOfPoints" where
  "around_loop cTile pGrid [] neighboringPoints = Inr neighboringPoints"
| "around_loop cTile pGrid (tileNumber # rest) neighboringPoints =
     (if tileNumber = 4 \<or> tileNumber = 20
      then around_loop cTile pGrid rest neighboringPoints
      else
        let tile = (fst cTile - 2 + int (tileNumber mod 5),
                    snd cTile - 2 + int (tileNumber div 5))
        in if \<not> InsideRectangle tile (0, 0) (gridDimensions pGrid)
           then around_loop cTile pGrid rest neighboringPoints
           else (case grid_read (grid pGrid) tile of
                   Inl e \<Rightarrow> Inl e
                 | Inr p \<Rightarrow> around_loop cTile pGrid rest (neighboringPoints @ [p])))"

definition GetPointsAroundTile ::
  "vector2di \<Rightarrow> PointGrid2D \<Rightarrow> undefined_behaviour + ListOfPoints" where
  "GetPointsAroundTile cTile pGrid = around_loop cTile pGrid [1..<24] []"

subsection \<open>InNeighborhood\<close>

fun within_distance :: "vector2di \<Rightarrow> int \<Rightarrow> ListOfPoints \<Rightarrow> bool" where
  "within_distance centerPoint minimumDistance [] = False"
| "within_distance centerPoint minimumDistance (otherPoint # rest) =
     (if otherPoint \<noteq> (- 1, - 1) \<and>
         getDistanceFrom otherPoint centerPoint < of_int minimumDistance
      then True
      else within_distance centerPoint minimumDistance rest)"

definition InNeighborhood ::
  "vector2di \<Rightarrow> int \<Rightarrow> PointGrid2D \<Rightarrow> real \<Rightarrow> undefined_behaviour + bool" where
  "InNeighborhood centerPoint minimumDistance pGrid cellSize =
     (case PointToGridTile centerPoint cellSize of
        Inl e \<Rightarrow> Inl e
      | Inr cTile \<Rightarrow>
          (case GetPointsAroundTile cTile pGrid of
             Inl e \<Rightarrow> Inl e
           | Inr pointsAroundCenterTile \<Rightarrow>
               Inr (within_distance centerPoint minimumDistance pointsAroundCenterTile)))"

subsection \<open>InsideSection and ExcludeSection\<close>

text \<open>
  \<^verbatim>\<open>section.centerTile.X - section.dimensions.Width / 2\<close> is computed in \<^verbatim>\<open>unsigned\<close>
  arithmetic and stored in an \<^verbatim>\<open>int\<close>. The message printed for \<^verbatim>\<open>eEllipse\<close> is not
  part of the model.
\<close>

definition InsideSection :: "vector2di \<Rightarrow> MapSection \<Rightarrow> bool" where
  "InsideSection point section =
     (let sectionOffset =
            (s32 (fst (centerTile section) - int (Width (dimensions section) div 2)),
             s32 (snd (centerTile section) - int (Height (dimensions section) div 2)))
      in case shape section of
           eRectangle \<Rightarrow> InsideRectangle point sectionOffset (dimensions section)
         | eEllipse \<Rightarrow> False)"

definition ExcludeSection :: "ListOfPoints \<Rightarrow> MapSection \<Rightarrow> ListOfPoints" where
  "ExcludeSection points section = filter (\<lambda>p. \<not> InsideSection p section) points"

subsection \<open>GeneratePoints\<close>

record gen_state =
  processQueue :: QueueOfPoints
  outputList :: ListOfPoints
  pointGrid :: PointGrid2D
  numberOfPoints :: int
  rngCalls :: nat

text \<open>Storing a point on its tile of the grid.\<close>

definition store_point ::
  "PointGrid2D \<Rightarrow> vector2di \<Rightarrow> real \<Rightarrow> undefined_behaviour + PointGrid2D" where
  "store_point pg point cellSize =
     (case PointToGridTile point cellSize of
        Inl e \<Rightarrow> Inl e
      | Inr gridTile \<Rightarrow>
          (case grid_write (grid pg) gridTile point of
             Inl e \<Rightarrow> Inl e
           | Inr g \<Rightarrow> Inr (pg\<lparr>grid := g\<rparr>)))"

text \<open>The \<^verbatim>\<open>for\<close> loop over the existing points.\<close>

fun seed_loop ::
  "real \<Rightarrow> ListOfPoints \<Rightarrow> gen_state \<Rightarrow> undefined_behaviour + gen_state" where
  "seed_loop cellSize [] st = Inr st"
| "seed_loop cellSize (point # rest) st =
     (case store_point (pointGrid st) point cellSize of
        Inl e \<Rightarrow> Inl e
      | Inr pg \<Rightarrow>
          seed_loop cellSize rest
            (st\<lparr>processQueue := processQueue st @ [point], pointGrid := pg\<rparr>))"

text \<open>
  The body of the \<^verbatim>\<open>for\<close> loop that generates candidates around the current point.
  The result is the new state and whether the loop is left by \<^verbatim>\<open>break\<close>.
  \<^verbatim>\<open>numberOfPoints++\<close> on a counter that holds the largest \<^verbatim>\<open>int\<close> overflows.
\<close>

definition candidate_step ::
  "random_source \<Rightarrow> int \<Rightarrow> dimension2du \<Rightarrow> real \<Rightarrow> int \<Rightarrow> vector2di \<Rightarrow> gen_state
     \<Rightarrow> undefined_behaviour + gen_state \<times> bool" where
  "candidate_step rng minimumDistance mapDimensions cellSize maxNumberOfPoints currentPoint st =
     (case GenerateRandomPointAroundPoint rng (rngCalls st) currentPoint minimumDistance of
        Inl e \<Rightarrow> Inl e
      | Inr newPoint \<Rightarrow>
          let st1 = st\<lparr>rngCalls := rngCalls st + 2\<rparr>
          in if \<not> InsideRectangle newPoint (0, 0) mapDimensions
             then Inr (st1, False)
             else
               (case InNeighborhood newPoint minimumDistance (pointGrid st1) cellSize of
                  Inl e \<Rightarrow> Inl e
                | Inr tooClose \<Rightarrow>
                    if tooClose
                    then Inr (st1, False)
                    else
                      (case store_point (pointGrid st1) newPoint cellSize of
                         Inl e \<Rightarrow> Inl e
                       | Inr pg \<Rightarrow>
                           if 2147483647 < numberOfPoints st1 + 1
                           then Inl SignedIntegerOverflow
                           else
                             Inr (st1\<lparr>processQueue := processQueue st1 @ [newPoint],
                                      outputList := outputList st1 @ [newPoint],
                                      pointGrid := pg,
                                      numberOfPoints := numberOfPoints st1 + 1\<rparr>,
                                  maxNumberOfPoints < MAX_INT))))"

text \<open>The \<^verbatim>\<open>for\<close> loop itself; the \<open>nat\<close> argument is the number of iterations left.\<close>

fun candidate_loop ::
  "random_source \<Rightarrow> int \<Rightarrow> dimension2du \<Rightarrow> real \<Rightarrow> int \<Rightarrow> vector2di \<Rightarrow> nat \<Rightarrow> gen_state
     \<Rightarrow> undefined_behaviour + gen_state" where
  "candidate_loop rng minimumDistance mapDimensions cellSize maxNumberOfPoints currentPoint 0 st =
     Inr st"
| "candidate_loop rng minimumDistance mapDimensions cellSize maxNumberOfPoints currentPoint
     (Suc k) st =
     (case candidate_step rng minimumDistance mapDimensions cellSize maxNumberOfPoints
             currentPoint st of
        Inl e \<Rightarrow> Inl e
      | Inr (st', leave) \<Rightarrow>
          if leave then Inr st'
          else candidate_loop rng minimumDistance mapDimensions cellSize maxNumberOfPoints
                 currentPoint k st')"

text \<open>
  One pass through the body of the \<^verbatim>\<open>while\<close> loop. The condition of the last \<^verbatim>\<open>if\<close>,
  \<^verbatim>\<open>!maxNumberOfPoints < MAX_INT\<close>, negates \<^verbatim>\<open>maxNumberOfPoints\<close> first and compares the
  resulting 0 or 1 with \<^verbatim>\<open>MAX_INT\<close>.
\<close>

definition loop_body ::
  "random_source \<Rightarrow> int \<Rightarrow> dimension2du \<Rightarrow> real \<Rightarrow> int \<Rightarrow> gen_state
     \<Rightarrow> undefined_behaviour + gen_state" where
  "loop_body rng minimumDistance mapDimensions cellSize maxNumberOfPoints st =
     (case processQueue st of
        [] \<Rightarrow> Inl FrontOfEmptyQueue
      | currentPoint # _ \<Rightarrow>
          (case candidate_loop rng minimumDistance mapDimensions cellSize maxNumberOfPoints
                  currentPoint POINTS_PER_LOOP st of
             Inl e \<Rightarrow> Inl e
           | Inr st' \<Rightarrow>
               if (if maxNumberOfPoints = 0 then (1::int) else 0) < MAX_INT
               then Inr (st'\<lparr>processQueue := tl (processQueue st')\<rparr>)
               else Inr st'))"

definition loop_cond :: "int \<Rightarrow> undefined_behaviour + gen_state \<Rightarrow> bool" where
  "loop_cond maxNumberOfPoints r =
     (case r of
        Inl e \<Rightarrow> False
      | Inr st \<Rightarrow> processQueue st \<noteq> [] \<and> numberOfPoints st < maxNumberOfPoints)"

definition loop_step ::
  "random_source \<Rightarrow> int \<Rightarrow> dimension2du \<Rightarrow> real \<Rightarrow> int \<Rightarrow> undefined_behaviour + gen_state
     \<Rightarrow> undefined_behaviour + gen_state" where
  "loop_step rng minimumDistance mapDimensions cellSize maxNumberOfPoints r =
     (case r of
        Inl e \<Rightarrow> Inl e
      | Inr st \<Rightarrow> loop_body rng minimumDistance mapDimensions cellSize maxNumberOfPoints st)"

definition generation_loop ::
  "random_source \<Rightarrow> int \<Rightarrow> dimension2du \<Rightarrow> real \<Rightarrow> int \<Rightarrow> gen_state
     \<Rightarrow> (undefined_behaviour + gen_state) option" where
  "generation_loop rng minimumDistance mapDimensions cellSize maxNumberOfPoints st =
     while_option (loop_cond maxNumberOfPoints)
       (loop_step rng minimumDistance mapDimensions cellSize maxNumberOfPoints) (Inr st)"

text \<open>The grid as allocated: \<^verbatim>\<open>pointGridHeight\<close> rows of \<^verbatim>\<open>pointGridWidth\<close> unset tiles.\<close>

definition empty_grid :: "int \<Rightarrow> int \<Rightarrow> PointGrid2D" where
  "empty_grid pointGridWidth pointGridHeight =
     \<lparr>grid = replicate (nat pointGridHeight) (replicate (nat pointGridWidth) (- 1, - 1)),
      gridDimensions = \<lparr>Width = nat (u32 pointGridWidth), Height = nat (u32 pointGridHeight)\<rparr>\<rparr>"

text \<open>The local variable \<^verbatim>\<open>pointGridCellSize\<close>.\<close>

definition pointGridCellSize :: "int \<Rightarrow> real" where
  "pointGridCellSize minimumDistance = of_int minimumDistance / sqrt 2"

text \<open>The state before the \<^verbatim>\<open>while\<close> loop: the first point, or the existing points.\<close>

definition initial_state ::
  "random_source \<Rightarrow> dimension2du \<Rightarrow> real \<Rightarrow> PointGrid2D \<Rightarrow> ListOfPoints
     \<Rightarrow> undefined_behaviour + gen_state" where
  "initial_state rng mapDimensions cellSize pg existingPoints =
     (if existingPoints = []
      then
        (case float_to_int (rng 0 (real (Width mapDimensions) * (2 / 5))
                                   (real (Width mapDimensions) * (3 / 5))) of
           Inl e \<Rightarrow> Inl e
         | Inr firstPointWidthRange \<Rightarrow>
             (case float_to_int (rng 1 (real (Height mapDimensions) * (2 / 5))
                                        (real (Height mapDimensions) * (3 / 5))) of
                Inl e \<Rightarrow> Inl e
              | Inr firstPointHeightRange \<Rightarrow>
                  let firstPoint = (firstPointWidthRange, firstPointHeightRange)
                  in case store_point pg firstPoint cellSize of
                       Inl e \<Rightarrow> Inl e
                     | Inr pg' \<Rightarrow>
                         Inr \<lparr>processQueue = [firstPoint], outputList = [firstPoint],
                              pointGrid = pg', numberOfPoints = 0, rngCalls = 2\<rparr>))
      else
        seed_loop cellSize existingPoints
          \<lparr>processQueue = [], outputList = [], pointGrid = pg, numberOfPoints = 0, rngCalls = 0\<rparr>)"

text \<open>Everything \<^verbatim>\<open>GeneratePoints\<close> does before its \<^verbatim>\<open>while\<close> loop.\<close>

definition initialization ::
  "random_source \<Rightarrow> int \<Rightarrow> dimension2du \<Rightarrow> ListOfPoints \<Rightarrow> undefined_behaviour + gen_state" where
  "initialization rng minimumDistance mapDimensions existingPoints =
     (case ceil_div_to_int (real (Width mapDimensions)) (pointGridCellSize minimumDistance) of
        Inl e \<Rightarrow> Inl e
      | Inr pointGridWidth \<Rightarrow>
          (case ceil_div_to_int (real (Height mapDimensions))
                  (pointGridCellSize minimumDistance) of
             Inl e \<Rightarrow> Inl e
           | Inr pointGridHeight \<Rightarrow>
               initial_state rng mapDimensions (pointGridCellSize minimumDistance)
                 (empty_grid pointGridWidth pointGridHeight) existingPoints))"

definition GeneratePoints ::
  "random_source \<Rightarrow> int \<Rightarrow> dimension2du \<Rightarrow> MapSection list \<Rightarrow> ListOfPoints \<Rightarrow> int
     \<Rightarrow> (undefined_behaviour + ListOfPoints) option" where
  "GeneratePoints rng minimumDistance mapDimensions excludedSections existingPoints
     maxNumberOfPoints =
     (case initialization rng minimumDistance mapDimensions existingPoints of
        Inl e \<Rightarrow> Some (Inl e)
      | Inr st0 \<Rightarrow>
          (case generation_loop rng minimumDistance mapDimensions
                  (pointGridCellSize minimumDistance) maxNumberOfPoints st0 of
             None \<Rightarrow> None
           | Some (Inl e) \<Rightarrow> Some (Inl e)
           | Some (Inr st) \<Rightarrow>
               Some (Inr (foldl ExcludeSection (outputList st) excludedSections))))"

section \<open>Notions used by the properties\<close>

text \<open>The contract of \<^verbatim>\<open>CustomRandom::Range\<close>: the value lies between the two bounds.\<close>

definition Range_ok :: "random_source \<Rightarrow> bool" where
  "Range_ok rng = (\<forall>n lo hi. lo \<le> hi \<longrightarrow> lo \<le> rng n lo hi \<and> rng n lo hi \<le> hi)"

text \<open>A random source that always returns the lower bound.\<close>

definition Range_min :: random_source where
  "Range_min n lo hi = lo"

definition in_map :: "dimension2du \<Rightarrow> vector2di \<Rightarrow> bool" where
  "in_map mapDimensions p =
     (0 \<le> fst p \<and> fst p < int (Width mapDimensions) \<and>
      0 \<le> snd p \<and> snd p < int (Height mapDimensions))"

text \<open>The values an \<^verbatim>\<open>int\<close> and an \<^verbatim>\<open>unsigned\<close> can hold.\<close>

definition is_s32 :: "int \<Rightarrow> bool" where
  "is_s32 z = (- 2147483648 \<le> z \<and> z \<le> 2147483647)"

definition is_u32 :: "nat \<Rightarrow> bool" where
  "is_u32 n = (n < 4294967296)"

definition point_ok :: "dimension2du \<Rightarrow> vector2di \<Rightarrow> bool" where
  "point_ok dims q = (in_map dims q \<and> is_s32 (fst q) \<and> is_s32 (snd q))"

text \<open>
  A section whose fields are values of their types and whose top left corner, which
  \<^verbatim>\<open>InsideSection\<close> stores in a \<^verbatim>\<open>vector2di\<close>, is a pair of \<^verbatim>\<open>int\<close> values.
\<close>

definition section_representable :: "MapSection \<Rightarrow> bool" where
  "section_representable s =
     (is_s32 (fst (centerTile s)) \<and> is_s32 (snd (centerTile s)) \<and>
      is_u32 (Width (dimensions s)) \<and> is_u32 (Height (dimensions s)) \<and>
      is_s32 (fst (centerTile s) - int (Width (dimensions s) div 2)) \<and>
      is_s32 (snd (centerTile s) - int (Height (dimensions s) div 2)))"

text \<open>The quantity that decreases with every pass through the \<^verbatim>\<open>while\<close> loop.\<close>

definition loop_measure :: "int \<Rightarrow> undefined_behaviour + gen_state \<Rightarrow> nat \<times> nat" where
  "loop_measure maxN r =
     (case r of Inl e \<Rightarrow> (0, 0)
      | Inr st \<Rightarrow> (nat (maxN - numberOfPoints st), length (processQueue st)))"

text \<open>The tile that \<^verbatim>\<open>GetPointsAroundTile\<close> visits for a tile number.\<close>

definition tile_at :: "vector2di \<Rightarrow> nat \<Rightarrow> vector2di" where
  "tile_at c n = (fst c - 2 + int (n mod 5), snd c - 2 + int (n div 5))"

text \<open>A point is stored when the grid holds it on the tile \<^verbatim>\<open>PointToGridTile\<close> gives.\<close>

definition stored :: "int \<Rightarrow> PointGrid2D \<Rightarrow> vector2di \<Rightarrow> bool" where
  "stored d pg q =
     (\<exists>t. PointToGridTile q (pointGridCellSize d) = Inr t \<and> grid_read (grid pg) t = Inr q)"

text \<open>
  The invariant of the generation loop behind the minimum distance: the grid keeps its
  dimensions, every accepted point lies in the map and is stored, and the accepted points
  are pairwise at least the minimum distance apart.
\<close>

definition spacing_invariant :: "int \<Rightarrow> dimension2du \<Rightarrow> dimension2du \<Rightarrow> gen_state \<Rightarrow> bool" where
  "spacing_invariant d dims gdims st =
     (gridDimensions (pointGrid st) = gdims \<and>
      (\<forall>q \<in> set (outputList st). point_ok dims q \<and> stored d (pointGrid st) q) \<and>
      sorted_wrt (\<lambda>a b. of_int d \<le> getDistanceFrom a b) (outputList st))"

text \<open>
  The invariant behind the sentinel: a tile of the grid holds the sentinel, an existing
  point or an accepted point, and the accepted points lie in the map.
\<close>

definition cells_ok :: "dimension2du \<Rightarrow> ListOfPoints \<Rightarrow> gen_state \<Rightarrow> bool" where
  "cells_ok dims seeds st =
     ((\<forall>row \<in> set (grid (pointGrid st)). \<forall>c \<in> set row.
         c = (- 1, - 1) \<or> c \<in> set seeds \<or> c \<in> set (outputList st)) \<and>
      (\<forall>q \<in> set (outputList st). in_map dims q))"

subsection \<open>Grids of the example runs\<close>

definition unset_grid :: "nat \<Rightarrow> GridOfPoints" where
  "unset_grid n = replicate n (replicate n (- 1, - 1))"

definition put :: "GridOfPoints \<Rightarrow> nat \<Rightarrow> nat \<Rightarrow> vector2di \<Rightarrow> GridOfPoints" where
  "put g i j p = g[i := (g ! i)[j := p]]"

definition gridA1 :: GridOfPoints where
  "gridA1 = put (unset_grid 3) 1 1 (8, 10)"

definition gridA2 :: GridOfPoints where
  "gridA2 = put gridA1 2 1 (18, 10)"

definition gridB1 :: GridOfPoints where
  "gridB1 = put (unset_grid 5) 1 1 (12, 12)"

definition gridB2 :: GridOfPoints where
  "gridB2 = put gridB1 3 1 (22, 12)"

definition gridC0 :: GridOfPoints where
  "gridC0 = put (put (unset_grid 15) 1 1 (10, 10)) 7 7 (50, 50)"

definition gridC1 :: GridOfPoints where
  "gridC1 = put gridC0 2 1 (20, 10)"

definition gridC2 :: GridOfPoints where
  "gridC2 = put gridC1 8 7 (60, 50)"

definition gridE :: GridOfPoints where
  "gridE = put (unset_grid 2) 1 1 (10, 10)"

subsection \<open>A section of the example runs\<close>

text \<open>
  A rectangle around \<open>(- 2, - 2)\<close> whose half width, 2147483647, puts the top left corner
  at \<open>- 2147483649\<close>, one below the smallest \<^verbatim>\<open>int\<close>.
\<close>

definition wide_section :: MapSection where
  "wide_section =
     \<lparr>shape = eRectangle, centerTile = (- 2, - 2),
      dimensions = \<lparr>Width = 4294967294, Height = 4294967294\<rparr>\<rparr>"

section \<open>Evaluating the model\<close>

text \<open>
  With the cell size \<open>d / sqrt 2\<close>, the tile of a coordinate and the number of tiles of a
  dimension are decided by integer inequalities.
\<close>

lemma tile_eval:
  assumes "0 < d" "0 \<le> x" "0 \<le> t" "t * t * d * d \<le> 2 * x * x" "2 * x * x < (t + 1) * (t + 1) * d * d"
    "t \<le> 2147483647"
  shows "float_div_to_int (of_int x) (pointGridCellSize d) = Inr t"
proof -
  have s2: "sqrt 2 * sqrt 2 = (2::real)" by simp
  let ?q = "real_of_int x / (real_of_int d / sqrt 2)"
  have q: "?q = real_of_int x * sqrt 2 / real_of_int d" by simp
  have dpos: "0 < real_of_int d" using assms by simp
  have "(real_of_int t * real_of_int d)\<^sup>2 \<le> (real_of_int x * sqrt 2)\<^sup>2"
  proof -
    have "(real_of_int t * real_of_int d)\<^sup>2 = real_of_int (t * t * d * d)"
      by (simp add: power2_eq_square)
    also have "\<dots> \<le> real_of_int (2 * x * x)" using assms(4) by (simp only: of_int_le_iff)
    also have "\<dots> = (real_of_int x * sqrt 2)\<^sup>2" by (simp add: power_mult_distrib) (simp add: power2_eq_square)
    finally show ?thesis .
  qed
  then have lo: "real_of_int t * real_of_int d \<le> real_of_int x * sqrt 2"
  proof (rule power2_le_imp_le)
    show "0 \<le> real_of_int x * sqrt 2" using assms(2) by simp
  qed
  have "(real_of_int x * sqrt 2)\<^sup>2 < (real_of_int (t + 1) * real_of_int d)\<^sup>2"
  proof -
    have "(real_of_int x * sqrt 2)\<^sup>2 = real_of_int (2 * x * x)" by (simp add: power_mult_distrib) (simp add: power2_eq_square)
    also have "\<dots> < real_of_int ((t + 1) * (t + 1) * d * d)" using assms(5) by (simp only: of_int_less_iff)
    also have "\<dots> = (real_of_int (t + 1) * real_of_int d)\<^sup>2"
      by (simp add: power2_eq_square)
    finally show ?thesis .
  qed
  then have hi: "real_of_int x * sqrt 2 < real_of_int (t + 1) * real_of_int d"
  proof (rule power2_less_imp_less)
    show "0 \<le> real_of_int (t + 1) * real_of_int d" using assms(1,3) by simp
  qed
  have q1: "real_of_int t \<le> ?q"
    unfolding q using lo dpos by (simp add: pos_le_divide_eq)
  have q2: "?q < real_of_int t + 1"
    unfolding q using hi dpos by (simp add: pos_divide_less_eq)
  have fl: "\<lfloor>?q\<rfloor> = t" using q1 q2 by linarith
  have q0: "0 \<le> ?q" using assms(1,2) by simp
  have ne: "real_of_int d / sqrt 2 \<noteq> 0" using dpos by simp
  show ?thesis
    unfolding float_div_to_int_def float_to_int_def pointGridCellSize_def Let_def
    using fl q0 ne assms(3,6) by simp
qed

lemma ceil_eval:
  assumes "0 < d" "0 < g" "(g - 1) * (g - 1) * d * d < 2 * int w * int w"
    "2 * int w * int w \<le> g * g * d * d" "g \<le> 2147483647"
  shows "ceil_div_to_int (real w) (pointGridCellSize d) = Inr g"
proof -
  let ?q = "real w / (real_of_int d / sqrt 2)"
  have q: "?q = real w * sqrt 2 / real_of_int d" by simp
  have dpos: "0 < real_of_int d" using assms by simp
  have "(real w * sqrt 2)\<^sup>2 \<le> (real_of_int g * real_of_int d)\<^sup>2"
  proof -
    have "(real w * sqrt 2)\<^sup>2 = real_of_int (2 * int w * int w)"
      by (simp add: power_mult_distrib) (simp add: power2_eq_square)
    also have "\<dots> \<le> real_of_int (g * g * d * d)" using assms(4) by (simp only: of_int_le_iff)
    also have "\<dots> = (real_of_int g * real_of_int d)\<^sup>2" by (simp add: power2_eq_square)
    finally show ?thesis .
  qed
  then have hi: "real w * sqrt 2 \<le> real_of_int g * real_of_int d"
  proof (rule power2_le_imp_le)
    show "0 \<le> real_of_int g * real_of_int d" using assms(1,2) by simp
  qed
  have "(real_of_int (g - 1) * real_of_int d)\<^sup>2 < (real w * sqrt 2)\<^sup>2"
  proof -
    have "(real_of_int (g - 1) * real_of_int d)\<^sup>2 = real_of_int ((g - 1) * (g - 1) * d * d)"
      by (simp add: power2_eq_square)
    also have "\<dots> < real_of_int (2 * int w * int w)" using assms(3) by (simp only: of_int_less_iff)
    also have "\<dots> = (real w * sqrt 2)\<^sup>2"
      by (simp add: power_mult_distrib) (simp add: power2_eq_square)
    finally show ?thesis .
  qed
  then have lo: "real_of_int (g - 1) * real_of_int d < real w * sqrt 2"
  proof (rule power2_less_imp_less)
    show "0 \<le> real w * sqrt 2" by simp
  qed
  have q1: "real_of_int g - 1 < ?q"
    unfolding q using lo dpos by (simp add: pos_less_divide_eq)
  have q2: "?q \<le> real_of_int g"
    unfolding q using hi dpos by (simp add: pos_divide_le_eq)
  have cl: "\<lceil>?q\<rceil> = g" using q1 q2 by linarith
  have ne: "real_of_int d / sqrt 2 \<noteq> 0" using dpos by simp
  show ?thesis
    unfolding ceil_div_to_int_def float_to_int_def pointGridCellSize_def Let_def
    using cl ne assms(2,5) by simp
qed

lemma distance_less_iff:
  "getDistanceFrom a b < of_int d \<longleftrightarrow>
     0 < d \<and> (fst a - fst b) * (fst a - fst b) + (snd a - snd b) * (snd a - snd b) < d * d"
proof -
  let ?n = "(fst a - fst b) * (fst a - fst b) + (snd a - snd b) * (snd a - snd b)"
  have n0: "0 \<le> ?n" by simp
  show ?thesis
  proof (cases "0 < d")
    case False
    have "0 \<le> getDistanceFrom a b" unfolding getDistanceFrom_def by (rule real_sqrt_ge_zero) (use n0 in simp)
    moreover have "real_of_int d \<le> 0" using False by simp
    ultimately show ?thesis using False by linarith
  next
    case True
    have d: "real_of_int d = sqrt (real_of_int (d * d))"
      using True by simp
    have "getDistanceFrom a b < real_of_int d \<longleftrightarrow> real_of_int ?n < real_of_int (d * d)"
      unfolding getDistanceFrom_def by (subst d) (rule real_sqrt_less_iff)
    also have "\<dots> \<longleftrightarrow> ?n < d * d" by (rule of_int_less_iff)
    finally show ?thesis using True by simp
  qed
qed

lemma PointToGridTile_eval:
  assumes "float_div_to_int (of_int x) cs = Inr tx" "float_div_to_int (of_int y) cs = Inr ty"
  shows "PointToGridTile (x, y) cs = Inr (tx, ty)"
  using assms by (simp add: PointToGridTile_def)

lemma Range_min_point:
  assumes "is_s32 (fst p + d)" "is_s32 (snd p)"
  shows "GenerateRandomPointAroundPoint Range_min n p d = Inr (fst p + d, snd p)"
proof -
  have "float_to_int (real_of_int (fst p + d)) = Inr (fst p + d)"
    "float_to_int (real_of_int (snd p)) = Inr (snd p)"
    using assms by (simp_all add: float_to_int_def is_s32_def Let_def)
  then show ?thesis
    by (simp add: GenerateRandomPointAroundPoint_def Range_min_def)
qed

lemma Range_ok_min: "Range_ok Range_min"
  by (simp add: Range_ok_def Range_min_def)

lemma within_distance_eval:
  "within_distance c d (q # rest) =
     (if q \<noteq> (- 1, - 1) \<and> 0 < d \<and>
         (fst q - fst c) * (fst q - fst c) + (snd q - snd c) * (snd q - snd c) < d * d
      then True else within_distance c d rest)"
  by (simp add: distance_less_iff)

lemma tile_numbers:
  "[1..<24] = [1, 2, 3, 4, 5, 6, 7, 8, 9, 10, 11, 12, 13, 14, 15, 16, 17, 18, 19, 20, 21, 22, 23]"
  by code_simp

lemma GetPointsAroundTile_unfold:
  "GetPointsAroundTile c pg = around_loop c pg
     [1, 2, 3, 4, 5, 6, 7, 8, 9, 10, 11, 12, 13, 14, 15, 16, 17, 18, 19, 20, 21, 22, 23] []"
  unfolding GetPointsAroundTile_def tile_numbers by (rule refl)

lemma candidate_loop_numeral:
  "candidate_loop rng d dims cs maxN cur (numeral n) st =
     (case candidate_step rng d dims cs maxN cur st of
        Inl e \<Rightarrow> Inl e
      | Inr (st', leave) \<Rightarrow>
          if leave then Inr st'
          else candidate_loop rng d dims cs maxN cur (pred_numeral n) st')"
  by (simp add: numeral_eq_Suc)

lemma while_option_step: "b s \<Longrightarrow> while_option b c s = while_option b c (c s)"
  by (subst while_option_unfold) simp

lemma while_option_done: "\<not> b s \<Longrightarrow> while_option b c s = Some s"
  by (subst while_option_unfold) simp

lemma pop_condition: "(if maxN = 0 then (1::int) else 0) < MAX_INT"
  by (simp add: MAX_INT_def)

lemma MAX_INT_pos: "0 < MAX_INT" "1 < MAX_INT"
  by (simp_all add: MAX_INT_def)

lemmas eval_simps =
  candidate_step_def Range_min_point is_s32_def InsideRectangle_def u32_def
  InNeighborhood_def GetPointsAroundTile_unfold grid_read_def store_point_def grid_write_def
  unset_grid_def put_def Let_def within_distance_eval
  gridA1_def gridA2_def gridB1_def gridB2_def gridC0_def gridC1_def gridC2_def gridE_def

lemmas body_simps =
  loop_body_def POINTS_PER_LOOP_def candidate_loop_numeral pop_condition MAX_INT_pos

lemma tiles_10:
  "float_div_to_int 4 (pointGridCellSize 10) = Inr 0"
  "float_div_to_int 8 (pointGridCellSize 10) = Inr 1"
  "float_div_to_int 10 (pointGridCellSize 10) = Inr 1"
  "float_div_to_int 12 (pointGridCellSize 10) = Inr 1"
  "float_div_to_int 14 (pointGridCellSize 10) = Inr 1"
  "float_div_to_int 18 (pointGridCellSize 10) = Inr 2"
  "float_div_to_int 20 (pointGridCellSize 10) = Inr 2"
  "float_div_to_int 22 (pointGridCellSize 10) = Inr 3"
  "float_div_to_int 40 (pointGridCellSize 10) = Inr 5"
  "float_div_to_int 50 (pointGridCellSize 10) = Inr 7"
  "float_div_to_int 60 (pointGridCellSize 10) = Inr 8"
  using tile_eval[of 10 4 0] tile_eval[of 10 8 1] tile_eval[of 10 10 1] tile_eval[of 10 12 1]
    tile_eval[of 10 14 1] tile_eval[of 10 18 2] tile_eval[of 10 20 2] tile_eval[of 10 22 3]
    tile_eval[of 10 40 5] tile_eval[of 10 50 7] tile_eval[of 10 60 8]
  by simp_all

lemma grid_sizes_10:
  "ceil_div_to_int 10 (pointGridCellSize 10) = Inr 2"
  "ceil_div_to_int 20 (pointGridCellSize 10) = Inr 3"
  "ceil_div_to_int 30 (pointGridCellSize 10) = Inr 5"
  "ceil_div_to_int 100 (pointGridCellSize 10) = Inr 15"
  using ceil_eval[of 10 2 10] ceil_eval[of 10 3 20] ceil_eval[of 10 5 30]
    ceil_eval[of 10 15 100]
  by simp_all

lemma point_tiles_10:
  "PointToGridTile (8, 10) (pointGridCellSize 10) = Inr (1, 1)"
  "PointToGridTile (10, 10) (pointGridCellSize 10) = Inr (1, 1)"
  "PointToGridTile (12, 12) (pointGridCellSize 10) = Inr (1, 1)"
  "PointToGridTile (14, 10) (pointGridCellSize 10) = Inr (1, 1)"
  "PointToGridTile (18, 10) (pointGridCellSize 10) = Inr (2, 1)"
  "PointToGridTile (20, 10) (pointGridCellSize 10) = Inr (2, 1)"
  "PointToGridTile (22, 12) (pointGridCellSize 10) = Inr (3, 1)"
  "PointToGridTile (40, 4) (pointGridCellSize 10) = Inr (5, 0)"
  "PointToGridTile (50, 50) (pointGridCellSize 10) = Inr (7, 7)"
  "PointToGridTile (60, 50) (pointGridCellSize 10) = Inr (8, 7)"
  using PointToGridTile_eval[of 8 _ 1 10 1] PointToGridTile_eval[of 10 _ 1 10 1]
    PointToGridTile_eval[of 12 _ 1 12 1] PointToGridTile_eval[of 14 _ 1 10 1]
    PointToGridTile_eval[of 18 _ 2 10 1] PointToGridTile_eval[of 20 _ 2 10 1]
    PointToGridTile_eval[of 22 _ 3 12 1] PointToGridTile_eval[of 40 _ 5 4 0]
    PointToGridTile_eval[of 50 _ 7 50 7] PointToGridTile_eval[of 60 _ 8 50 7] tiles_10
  by simp_all

subsection \<open>A run without existing points\<close>

text \<open>
  The map is 30 by 30, the minimum distance 10, the random source \<open>Range_min\<close>: the first
  point is \<open>(12, 12)\<close> and every candidate lies 10 to the right of the current point.
\<close>

lemma initB:
  "initialization Range_min 10 \<lparr>Width = 30, Height = 30\<rparr> [] =
   Inr \<lparr>processQueue = [(12, 12)], outputList = [(12, 12)],
        pointGrid = \<lparr>grid = gridB1, gridDimensions = \<lparr>Width = 5, Height = 5\<rparr>\<rparr>,
        numberOfPoints = 0, rngCalls = 2\<rparr>"
  by (simp add: initialization_def grid_sizes_10 initial_state_def Range_min_def float_to_int_def
      point_tiles_10 empty_grid_def store_point_def grid_write_def u32_def unset_grid_def put_def
      gridB1_def Let_def)

lemma stepB_accept:
  "k < 2147483647 \<Longrightarrow>
   candidate_step Range_min 10 \<lparr>Width = 30, Height = 30\<rparr> (pointGridCellSize 10) MAX_INT (12, 12)
     \<lparr>processQueue = q, outputList = out,
      pointGrid = \<lparr>grid = gridB1, gridDimensions = \<lparr>Width = 5, Height = 5\<rparr>\<rparr>,
      numberOfPoints = k, rngCalls = n\<rparr> =
   Inr (\<lparr>processQueue = q @ [(22, 12)], outputList = out @ [(22, 12)],
         pointGrid = \<lparr>grid = gridB2, gridDimensions = \<lparr>Width = 5, Height = 5\<rparr>\<rparr>,
         numberOfPoints = k + 1, rngCalls = n + 2\<rparr>, False)"
  by (simp add: eval_simps point_tiles_10 MAX_INT_def del: within_distance.simps(2))

lemma stepB_reject:
  "candidate_step Range_min 10 \<lparr>Width = 30, Height = 30\<rparr> (pointGridCellSize 10) MAX_INT (12, 12)
     \<lparr>processQueue = q, outputList = out,
      pointGrid = \<lparr>grid = gridB2, gridDimensions = \<lparr>Width = 5, Height = 5\<rparr>\<rparr>,
      numberOfPoints = k, rngCalls = n\<rparr> =
   Inr (\<lparr>processQueue = q, outputList = out,
         pointGrid = \<lparr>grid = gridB2, gridDimensions = \<lparr>Width = 5, Height = 5\<rparr>\<rparr>,
         numberOfPoints = k, rngCalls = n + 2\<rparr>, False)"
  by (simp add: eval_simps point_tiles_10 MAX_INT_def del: within_distance.simps(2))

lemma stepB_outside:
  "candidate_step Range_min 10 \<lparr>Width = 30, Height = 30\<rparr> (pointGridCellSize 10) MAX_INT (22, 12)
     \<lparr>processQueue = q, outputList = out, pointGrid = pg, numberOfPoints = k, rngCalls = n\<rparr> =
   Inr (\<lparr>processQueue = q, outputList = out, pointGrid = pg,
         numberOfPoints = k, rngCalls = n + 2\<rparr>, False)"
  by (simp add: candidate_step_def Range_min_point is_s32_def InsideRectangle_def u32_def Let_def)

lemma bodyB1:
  "loop_body Range_min 10 \<lparr>Width = 30, Height = 30\<rparr> (pointGridCellSize 10) MAX_INT
     \<lparr>processQueue = [(12, 12)], outputList = [(12, 12)],
      pointGrid = \<lparr>grid = gridB1, gridDimensions = \<lparr>Width = 5, Height = 5\<rparr>\<rparr>,
      numberOfPoints = 0, rngCalls = 2\<rparr> =
   Inr \<lparr>processQueue = [(22, 12)], outputList = [(12, 12), (22, 12)],
        pointGrid = \<lparr>grid = gridB2, gridDimensions = \<lparr>Width = 5, Height = 5\<rparr>\<rparr>,
        numberOfPoints = 1, rngCalls = 62\<rparr>"
  by (simp add: body_simps stepB_accept stepB_reject)

lemma bodyB2:
  "loop_body Range_min 10 \<lparr>Width = 30, Height = 30\<rparr> (pointGridCellSize 10) MAX_INT
     \<lparr>processQueue = [(22, 12)], outputList = [(12, 12), (22, 12)],
      pointGrid = \<lparr>grid = gridB2, gridDimensions = \<lparr>Width = 5, Height = 5\<rparr>\<rparr>,
      numberOfPoints = 1, rngCalls = 62\<rparr> =
   Inr \<lparr>processQueue = [], outputList = [(12, 12), (22, 12)],
        pointGrid = \<lparr>grid = gridB2, gridDimensions = \<lparr>Width = 5, Height = 5\<rparr>\<rparr>,
        numberOfPoints = 1, rngCalls = 122\<rparr>"
  by (simp add: body_simps stepB_outside)

lemma loopB:
  "generation_loop Range_min 10 \<lparr>Width = 30, Height = 30\<rparr> (pointGridCellSize 10) MAX_INT
     \<lparr>processQueue = [(12, 12)], outputList = [(12, 12)],
      pointGrid = \<lparr>grid = gridB1, gridDimensions = \<lparr>Width = 5, Height = 5\<rparr>\<rparr>,
      numberOfPoints = 0, rngCalls = 2\<rparr> =
   Some (Inr \<lparr>processQueue = [], outputList = [(12, 12), (22, 12)],
      pointGrid = \<lparr>grid = gridB2, gridDimensions = \<lparr>Width = 5, Height = 5\<rparr>\<rparr>,
      numberOfPoints = 1, rngCalls = 122\<rparr>)"
  unfolding generation_loop_def
  apply (subst while_option_step)
   apply (simp add: loop_cond_def MAX_INT_def)
  apply (simp only: loop_step_def sum.case bodyB1)
  apply (subst while_option_step)
   apply (simp add: loop_cond_def MAX_INT_def)
  apply (simp only: loop_step_def sum.case bodyB2)
  apply (rule while_option_done)
  apply (simp add: loop_cond_def)
  done

lemma runB:
  "GeneratePoints Range_min 10 \<lparr>Width = 30, Height = 30\<rparr> secs [] MAX_INT =
     Some (Inr (foldl ExcludeSection [(12, 12), (22, 12)] secs))"
  by (simp add: GeneratePoints_def initB loopB)

lemma runB_plain:
  "GeneratePoints Range_min 10 \<lparr>Width = 30, Height = 30\<rparr> [] [] MAX_INT =
     Some (Inr [(12, 12), (22, 12)])"
  using runB[of "[]"] by simp

section \<open>The structure of the loops\<close>

lemma float_to_int_range: "float_to_int r = Inr t \<Longrightarrow> is_s32 t"
  by (auto simp: float_to_int_def is_s32_def Let_def split: if_splits)

lemma GenerateRandomPointAroundPoint_range:
  "GenerateRandomPointAroundPoint rng n p d = Inr q \<Longrightarrow> is_s32 (fst q) \<and> is_s32 (snd q)"
  by (auto simp: GenerateRandomPointAroundPoint_def Let_def split: sum.splits dest: float_to_int_range)

lemma InsideRectangle_origin:
  assumes "InsideRectangle p (0, 0) dims" "is_s32 (fst p)" "is_s32 (snd p)"
  shows "in_map dims p"
proof -
  have x0: "0 \<le> fst p" and y0: "0 \<le> snd p" using assms(1) by (simp_all add: InsideRectangle_def)
  have ux: "u32 (fst p) = fst p" using x0 assms(2) by (simp add: u32_def is_s32_def)
  have uy: "u32 (snd p) = snd p" using y0 assms(3) by (simp add: u32_def is_s32_def)
  have "u32 (int (Width dims)) \<le> int (Width dims)" "u32 (int (Height dims)) \<le> int (Height dims)"
    by (simp_all add: u32_def zmod_le_nonneg_dividend)
  then show ?thesis using assms(1) x0 y0 ux uy by (simp add: InsideRectangle_def in_map_def)
qed

lemma candidate_step_cases:
  assumes "candidate_step rng d dims cs maxN cur st = Inr (st', leave)"
  obtains (rejected) "st' = st\<lparr>rngCalls := rngCalls st + 2\<rparr>" "\<not> leave"
  | (accepted) newPoint pg where
      "GenerateRandomPointAroundPoint rng (rngCalls st) cur d = Inr newPoint"
      "InsideRectangle newPoint (0, 0) dims"
      "InNeighborhood newPoint d (pointGrid st) cs = Inr False"
      "store_point (pointGrid st) newPoint cs = Inr pg"
      "st' = st\<lparr>rngCalls := rngCalls st + 2,
                 processQueue := processQueue st @ [newPoint],
                 outputList := outputList st @ [newPoint],
                 pointGrid := pg,
                 numberOfPoints := numberOfPoints st + 1\<rparr>"
      "leave = (maxN < MAX_INT)"
      "numberOfPoints st + 1 \<le> 2147483647"
  using assms
  by (auto simp: candidate_step_def Let_def split: sum.splits if_splits)

lemma candidate_loop_invariant:
  assumes step: "\<And>st st' leave. P st \<Longrightarrow>
        candidate_step rng d dims cs maxN cur st = Inr (st', leave) \<Longrightarrow> P st'"
    and run: "candidate_loop rng d dims cs maxN cur k st = Inr st'"
    and init: "P st"
  shows "P st'"
  using run init
proof (induction k arbitrary: st)
  case 0
  then show ?case by simp
next
  case (Suc k)
  from Suc.prems(1) obtain st1 leave where
    s1: "candidate_step rng d dims cs maxN cur st = Inr (st1, leave)"
    and rest: "if leave then st' = st1 else candidate_loop rng d dims cs maxN cur k st1 = Inr st'"
    by (auto split: sum.splits prod.splits if_splits)
  have p1: "P st1" using step[OF Suc.prems(2) s1] .
  show ?case
  proof (cases leave)
    case True
    then show ?thesis using rest p1 by simp
  next
    case False
    then show ?thesis using rest p1 Suc.IH by simp
  qed
qed

lemma loop_body_cases:
  assumes "loop_body rng d dims cs maxN st = Inr st'"
  obtains cur rest st1 where
    "processQueue st = cur # rest"
    "candidate_loop rng d dims cs maxN cur POINTS_PER_LOOP st = Inr st1"
    "st' = st1\<lparr>processQueue := tl (processQueue st1)\<rparr>"
  using assms
  by (auto simp: loop_body_def MAX_INT_def split: list.splits sum.splits if_splits)

lemma generation_loop_invariant:
  assumes body: "\<And>st st'. P st \<Longrightarrow> processQueue st \<noteq> [] \<Longrightarrow> numberOfPoints st < maxN \<Longrightarrow>
        loop_body rng d dims cs maxN st = Inr st' \<Longrightarrow> P st'"
    and run: "generation_loop rng d dims cs maxN st0 = Some (Inr st)"
    and init: "P st0"
  shows "P st"
proof -
  let ?Q = "\<lambda>r. case r of Inl e \<Rightarrow> True | Inr st \<Rightarrow> P st"
  have step: "?Q (loop_step rng d dims cs maxN r)" if q: "?Q r" and c: "loop_cond maxN r" for r
  proof -
    from c obtain s where r: "r = Inr s" and ne: "processQueue s \<noteq> []"
      and lt: "numberOfPoints s < maxN"
      by (auto simp: loop_cond_def split: sum.splits)
    show ?thesis
    proof (cases "loop_body rng d dims cs maxN s")
      case (Inl e)
      then show ?thesis by (simp add: r loop_step_def)
    next
      case (Inr s')
      then show ?thesis using body[OF _ ne lt Inr] q by (simp add: r loop_step_def)
    qed
  qed
  have start: "?Q (Inr st0)" using init by simp
  from while_option_rule[where P = ?Q, OF step run[unfolded generation_loop_def] start]
  show ?thesis by simp
qed

lemma generation_loop_stop:
  assumes "generation_loop rng d dims cs maxN st0 = Some (Inr st)"
  shows "processQueue st = [] \<or> maxN \<le> numberOfPoints st"
  using while_option_stop[OF assms[unfolded generation_loop_def]]
  by (auto simp: loop_cond_def)

lemma loop_invariant:
  assumes run: "generation_loop rng d dims cs maxN st0 = Some (Inr st)"
    and init: "P st0"
    and step: "\<And>s s' leave cur. P s \<Longrightarrow>
        candidate_step rng d dims cs maxN cur s = Inr (s', leave) \<Longrightarrow> P s'"
    and pop: "\<And>s. P s \<Longrightarrow> P (s\<lparr>processQueue := tl (processQueue s)\<rparr>)"
  shows "P st"
proof (rule generation_loop_invariant[where P = P, OF _ run init])
  fix s s'
  assume p: "P s" and b: "loop_body rng d dims cs maxN s = Inr s'"
  from b obtain cur rest s1 where
    cl: "candidate_loop rng d dims cs maxN cur POINTS_PER_LOOP s = Inr s1"
    and s': "s' = s1\<lparr>processQueue := tl (processQueue s1)\<rparr>"
    by (rule loop_body_cases)
  have "P s1" by (rule candidate_loop_invariant[where P = P, OF step cl p])
  then show "P s'" unfolding s' by (rule pop)
qed

lemma GeneratePoints_result:
  assumes "GeneratePoints rng d dims secs seeds maxN = Some (Inr ps)"
  obtains st0 st where
    "initialization rng d dims seeds = Inr st0"
    "generation_loop rng d dims (pointGridCellSize d) maxN st0 = Some (Inr st)"
    "ps = foldl ExcludeSection (outputList st) secs"
  using assms
  by (auto simp: GeneratePoints_def split: sum.splits option.splits)

lemma seed_loop_fields:
  "seed_loop cs pts st = Inr st' \<Longrightarrow>
     outputList st' = outputList st \<and> numberOfPoints st' = numberOfPoints st \<and>
     processQueue st' = processQueue st @ pts"
  by (induction pts arbitrary: st) (auto split: sum.splits)

lemma initialization_cases:
  assumes "initialization rng d dims seeds = Inr st0"
  obtains (first) gw gh fx fy pg where
      "seeds = []"
      "ceil_div_to_int (real (Width dims)) (pointGridCellSize d) = Inr gw"
      "ceil_div_to_int (real (Height dims)) (pointGridCellSize d) = Inr gh"
      "float_to_int (rng 0 (real (Width dims) * (2 / 5)) (real (Width dims) * (3 / 5))) = Inr fx"
      "float_to_int (rng 1 (real (Height dims) * (2 / 5)) (real (Height dims) * (3 / 5))) = Inr fy"
      "store_point (empty_grid gw gh) (fx, fy) (pointGridCellSize d) = Inr pg"
      "st0 = \<lparr>processQueue = [(fx, fy)], outputList = [(fx, fy)], pointGrid = pg,
              numberOfPoints = 0, rngCalls = 2\<rparr>"
  | (seeded) gw gh where
      "seeds \<noteq> []"
      "ceil_div_to_int (real (Width dims)) (pointGridCellSize d) = Inr gw"
      "ceil_div_to_int (real (Height dims)) (pointGridCellSize d) = Inr gh"
      "seed_loop (pointGridCellSize d) seeds
         \<lparr>processQueue = [], outputList = [], pointGrid = empty_grid gw gh,
          numberOfPoints = 0, rngCalls = 0\<rparr> = Inr st0"
  using assms
  by (auto simp: initialization_def initial_state_def Let_def split: sum.splits if_splits)

lemma store_point_cases:
  assumes "store_point pg p cs = Inr pg'"
  obtains t g where "PointToGridTile p cs = Inr t" "grid_write (grid pg) t p = Inr g"
    "pg' = pg\<lparr>grid := g\<rparr>"
  using assms by (auto simp: store_point_def split: sum.splits)

lemma store_point_dims:
  "store_point pg p cs = Inr pg' \<Longrightarrow> gridDimensions pg' = gridDimensions pg"
  by (erule store_point_cases) simp

lemma seed_loop_dims:
  "seed_loop cs pts st = Inr st' \<Longrightarrow>
     gridDimensions (pointGrid st') = gridDimensions (pointGrid st)"
  by (induction pts arbitrary: st) (auto split: sum.splits dest: store_point_dims)

section \<open>Termination\<close>

lemma candidate_step_progress:
  assumes "candidate_step rng d dims cs maxN cur st = Inr (st', leave)"
  shows "numberOfPoints st \<le> numberOfPoints st' \<and>
         (numberOfPoints st' = numberOfPoints st \<longrightarrow> processQueue st' = processQueue st)"
  using assms by (cases rule: candidate_step_cases) simp_all

lemma candidate_loop_progress:
  assumes "candidate_loop rng d dims cs maxN cur k st = Inr st'"
  shows "numberOfPoints st \<le> numberOfPoints st' \<and>
         (numberOfPoints st' = numberOfPoints st \<longrightarrow> processQueue st' = processQueue st)"
proof (rule candidate_loop_invariant[where P = "\<lambda>s. numberOfPoints st \<le> numberOfPoints s \<and>
         (numberOfPoints s = numberOfPoints st \<longrightarrow> processQueue s = processQueue st)", OF _ assms])
  fix s s' leave
  assume p: "numberOfPoints st \<le> numberOfPoints s \<and>
         (numberOfPoints s = numberOfPoints st \<longrightarrow> processQueue s = processQueue st)"
    and c: "candidate_step rng d dims cs maxN cur s = Inr (s', leave)"
  from candidate_step_progress[OF c] p
  show "numberOfPoints st \<le> numberOfPoints s' \<and>
         (numberOfPoints s' = numberOfPoints st \<longrightarrow> processQueue s' = processQueue st)"
    by auto
qed simp

lemma loop_step_decreases:
  assumes "loop_cond maxN r"
  shows "(loop_measure maxN (loop_step rng d dims cs maxN r), loop_measure maxN r)
           \<in> less_than <*lex*> less_than"
proof -
  from assms obtain s where r: "r = Inr s" and ne: "processQueue s \<noteq> []"
    and lt: "numberOfPoints s < maxN"
    by (auto simp: loop_cond_def split: sum.splits)
  show ?thesis
  proof (cases "loop_body rng d dims cs maxN s")
    case (Inl e)
    then show ?thesis using lt by (simp add: r loop_step_def loop_measure_def)
  next
    case (Inr s')
    then obtain cur rest s1 where q: "processQueue s = cur # rest"
      and cl: "candidate_loop rng d dims cs maxN cur POINTS_PER_LOOP s = Inr s1"
      and s': "s' = s1\<lparr>processQueue := tl (processQueue s1)\<rparr>"
      by (rule loop_body_cases)
    from candidate_loop_progress[OF cl]
    have mono: "numberOfPoints s \<le> numberOfPoints s1"
      and same: "numberOfPoints s1 = numberOfPoints s \<Longrightarrow> processQueue s1 = processQueue s"
      by auto
    show ?thesis
    proof (cases "numberOfPoints s1 = numberOfPoints s")
      case True
      then show ?thesis using same q Inr by (simp add: r loop_step_def loop_measure_def s')
    next
      case False
      then have "nat (maxN - numberOfPoints s1) < nat (maxN - numberOfPoints s)"
        using mono lt by linarith
      then show ?thesis using Inr by (simp add: r loop_step_def loop_measure_def s')
    qed
  qed
qed

lemma generation_loop_terminates:
  "\<exists>r. generation_loop rng d dims cs maxN st0 = Some r"
  unfolding generation_loop_def
proof (rule wf_while_option_Some[where P = "\<lambda>r. True"])
  have "{(t, s). (True \<and> loop_cond maxN s) \<and> t = loop_step rng d dims cs maxN s}
          \<subseteq> inv_image (less_than <*lex*> less_than) (loop_measure maxN)"
    using loop_step_decreases by (auto simp: inv_image_def)
  moreover have "wf (inv_image (less_than <*lex*> less_than) (loop_measure maxN))"
    by (intro wf_inv_image wf_lex_prod wf_less_than)
  ultimately show "wf {(t, s). (True \<and> loop_cond maxN s) \<and> t = loop_step rng d dims cs maxN s}"
    by (rule wf_subset[rotated])
qed simp_all

lemma GeneratePoints_returns:
  "\<exists>r. GeneratePoints rng minimumDistance mapDimensions excludedSections existingPoints
         maxNumberOfPoints = Some r"
proof (cases "initialization rng minimumDistance mapDimensions existingPoints")
  case (Inl e)
  then show ?thesis by (simp add: GeneratePoints_def)
next
  case (Inr st0)
  obtain r where "generation_loop rng minimumDistance mapDimensions
      (pointGridCellSize minimumDistance) maxNumberOfPoints st0 = Some r"
    using generation_loop_terminates by blast
  then show ?thesis using Inr by (cases r) (simp_all add: GeneratePoints_def)
qed

section \<open>Arguments that are not checked\<close>

lemma ceil_div_value:
  assumes "ceil_div_to_int a b = Inr g"
  shows "b \<noteq> 0 \<and> g = \<lceil>a / b\<rceil> \<and> is_s32 g"
  using assms
  by (auto simp: ceil_div_to_int_def float_to_int_def Let_def is_s32_def split: if_splits)

lemma grid_write_no_cells:
  assumes "\<forall>row \<in> set g. row = []"
  shows "grid_write g t p = Inl VectorIndexOutOfRange"
proof -
  have "\<not> nat (snd t) < length (g ! nat (fst t))" if "nat (fst t) < length g"
  proof -
    from that have "g ! nat (fst t) \<in> set g" by simp
    with assms have "g ! nat (fst t) = []" by blast
    then show ?thesis by simp
  qed
  then show ?thesis by (auto simp: grid_write_def)
qed

lemma store_point_no_cells:
  assumes "\<forall>row \<in> set (grid pg). row = []"
  shows "\<exists>e. store_point pg p cs = Inl e"
  by (simp add: store_point_def grid_write_no_cells[OF assms] split: sum.splits)

lemma empty_grid_no_cells:
  assumes "gw \<le> 0 \<or> gh \<le> 0"
  shows "\<forall>row \<in> set (grid (empty_grid gw gh)). row = []"
  using assms by (auto simp: empty_grid_def)

lemma initial_state_no_cells:
  assumes "\<forall>row \<in> set (grid pg). row = []"
  shows "\<exists>e. initial_state rng dims cs pg seeds = Inl e"
proof (cases "initial_state rng dims cs pg seeds")
  case (Inl e)
  then show ?thesis by blast
next
  case (Inr st)
  have "\<exists>p pg'. store_point pg p cs = Inr pg'"
  proof (cases seeds)
    case Nil
    with Inr show ?thesis
      by (auto simp: initial_state_def Let_def split: sum.splits)
  next
    case (Cons s rest)
    with Inr obtain pg' where "store_point pg s cs = Inr pg'"
      by (auto simp: initial_state_def split: sum.splits)
    then show ?thesis by blast
  qed
  with store_point_no_cells[OF assms] show ?thesis by (metis sum.distinct(1))
qed

lemma initialization_invalid:
  assumes "d \<le> 0 \<or> Width dims = 0 \<or> Height dims = 0"
  shows "\<exists>e. initialization rng d dims seeds = Inl e"
proof (cases "ceil_div_to_int (real (Width dims)) (pointGridCellSize d)")
  case (Inl e)
  then show ?thesis by (simp add: initialization_def)
next
  case gw: (Inr gw)
  show ?thesis
  proof (cases "ceil_div_to_int (real (Height dims)) (pointGridCellSize d)")
    case (Inl e)
    then show ?thesis by (simp add: initialization_def gw)
  next
    case gh: (Inr gh)
    let ?cs = "pointGridCellSize d"
    from ceil_div_value[OF gw] ceil_div_value[OF gh]
    have ne: "?cs \<noteq> 0" and g: "gw = \<lceil>real (Width dims) / ?cs\<rceil>"
      "gh = \<lceil>real (Height dims) / ?cs\<rceil>" by blast+
    from ne have d0: "d \<noteq> 0" by (auto simp: pointGridCellSize_def)
    have "gw \<le> 0 \<or> gh \<le> 0"
    proof (cases "d < 0")
      case True
      then have "?cs < 0" by (simp add: pointGridCellSize_def divide_neg_pos)
      then have "real (Width dims) / ?cs \<le> 0" by (simp add: divide_nonneg_neg)
      then show ?thesis unfolding g by (simp add: ceiling_le_zero)
    next
      case False
      with d0 assms have "Width dims = 0 \<or> Height dims = 0" by auto
      then show ?thesis unfolding g by auto
    qed
    from initial_state_no_cells[OF empty_grid_no_cells[OF this]]
    show ?thesis by (simp add: initialization_def gw gh)
  qed
qed

lemma initialization_valid:
  assumes "initialization rng d dims seeds = Inr st0"
  shows "0 < d \<and> 0 < Width dims \<and> 0 < Height dims"
proof (rule ccontr)
  assume "\<not> ?thesis"
  then have "d \<le> 0 \<or> Width dims = 0 \<or> Height dims = 0" by auto
  from initialization_invalid[OF this, of rng seeds] assms show False by auto
qed

subsection \<open>A run with an existing point outside the map\<close>

lemma initE:
  "initialization Range_min 10 \<lparr>Width = 10, Height = 10\<rparr> [(10, 10)] =
   Inr \<lparr>processQueue = [(10, 10)], outputList = [],
        pointGrid = \<lparr>grid = gridE, gridDimensions = \<lparr>Width = 2, Height = 2\<rparr>\<rparr>,
        numberOfPoints = 0, rngCalls = 0\<rparr>"
  by (simp add: initialization_def grid_sizes_10 initial_state_def point_tiles_10 empty_grid_def
      eval_simps)

lemma stepE_outside:
  "candidate_step Range_min 10 \<lparr>Width = 10, Height = 10\<rparr> (pointGridCellSize 10) MAX_INT (10, 10)
     \<lparr>processQueue = q, outputList = out, pointGrid = pg, numberOfPoints = k, rngCalls = n\<rparr> =
   Inr (\<lparr>processQueue = q, outputList = out, pointGrid = pg,
         numberOfPoints = k, rngCalls = n + 2\<rparr>, False)"
  by (simp add: candidate_step_def Range_min_point is_s32_def InsideRectangle_def u32_def Let_def)

lemma bodyE:
  "loop_body Range_min 10 \<lparr>Width = 10, Height = 10\<rparr> (pointGridCellSize 10) MAX_INT
     \<lparr>processQueue = [(10, 10)], outputList = [],
        pointGrid = \<lparr>grid = gridE,
                     gridDimensions = \<lparr>Width = 2, Height = 2\<rparr>\<rparr>,
        numberOfPoints = 0, rngCalls = 0\<rparr> =
   Inr \<lparr>processQueue = [], outputList = [],
        pointGrid = \<lparr>grid = gridE,
                     gridDimensions = \<lparr>Width = 2, Height = 2\<rparr>\<rparr>,
        numberOfPoints = 0, rngCalls = 60\<rparr>"
  by (simp add: body_simps stepE_outside)

lemma loopE:
  "generation_loop Range_min 10 \<lparr>Width = 10, Height = 10\<rparr> (pointGridCellSize 10) MAX_INT
     \<lparr>processQueue = [(10, 10)], outputList = [],
      pointGrid = \<lparr>grid = gridE, gridDimensions = \<lparr>Width = 2, Height = 2\<rparr>\<rparr>,
      numberOfPoints = 0, rngCalls = 0\<rparr> =
   Some (Inr \<lparr>processQueue = [], outputList = [],
      pointGrid = \<lparr>grid = gridE, gridDimensions = \<lparr>Width = 2, Height = 2\<rparr>\<rparr>,
      numberOfPoints = 0, rngCalls = 60\<rparr>)"
  unfolding generation_loop_def
  apply (subst while_option_step)
   apply (simp add: loop_cond_def MAX_INT_def)
  apply (simp only: loop_step_def sum.case bodyE)
  apply (rule while_option_done)
  apply (simp add: loop_cond_def)
  done

text \<open>
  Claim C7, as stated, fails: \<^verbatim>\<open>GeneratePoints\<close> has no check of its arguments. With the
  existing point \<open>(10, 10)\<close>, which is outside the map of 10 by 10, the call reports nothing
  and returns an empty list.
\<close>

theorem seed_outside_map_is_accepted:
  "\<not> in_map \<lparr>Width = 10, Height = 10\<rparr> (10, 10) \<and>
   GeneratePoints Range_min 10 \<lparr>Width = 10, Height = 10\<rparr> [] [(10, 10)] MAX_INT =
     Some (Inr [])"
  by (simp add: GeneratePoints_def initE loopE in_map_def)

text \<open>
  Claim C7, amended. \<^verbatim>\<open>GeneratePoints\<close> does not validate its arguments. With a minimum
  distance that is not positive, or a map dimension that is zero, the call produces no list:
  its behaviour stops being defined during the initialization, before the generation loop
  (the conversion of an infinite grid size to \<^verbatim>\<open>int\<close>, or the first write to a grid
  without tiles).
\<close>

theorem invalid_arguments_fail_during_initialization:
  assumes "minimumDistance \<le> 0 \<or> Width mapDimensions = 0 \<or> Height mapDimensions = 0"
  shows "\<exists>e. initialization rng minimumDistance mapDimensions existingPoints = Inl e \<and>
             GeneratePoints rng minimumDistance mapDimensions excludedSections existingPoints
               maxNumberOfPoints = Some (Inl e)"
  using initialization_invalid[OF assms, of rng existingPoints]
  by (auto simp: GeneratePoints_def)

theorem invalid_arguments_fail_during_initialization_witness:
  "((0::int) \<le> 0 \<or> Width \<lparr>Width = 100, Height = 100\<rparr> = 0 \<or>
      Height \<lparr>Width = 100, Height = 100\<rparr> = 0) \<and>
   initialization Range_min 0 \<lparr>Width = 100, Height = 100\<rparr> [] = Inl FloatToIntOutOfRange \<and>
   GeneratePoints Range_min 0 \<lparr>Width = 100, Height = 100\<rparr> [] [] MAX_INT =
     Some (Inl FloatToIntOutOfRange)"
proof -
  have i: "initialization Range_min 0 \<lparr>Width = 100, Height = 100\<rparr> [] = Inl FloatToIntOutOfRange"
    by (simp add: initialization_def pointGridCellSize_def ceil_div_to_int_def)
  from invalid_arguments_fail_during_initialization
    [of 0 "\<lparr>Width = 100, Height = 100\<rparr>" Range_min "[]" "[]" MAX_INT]
  show ?thesis using i by auto
qed

section \<open>Bounds of the generated points\<close>

lemma first_coordinate:
  assumes ok: "Range_ok rng" and w: "0 < w"
    and c: "float_to_int (rng n (real w * (2 / 5)) (real w * (3 / 5))) = Inr x"
  shows "0 \<le> x \<and> x < int w"
proof -
  let ?r = "rng n (real w * (2 / 5)) (real w * (3 / 5))"
  have le: "real w * (2 / 5) \<le> real w * (3 / 5)" by simp
  from ok le have lo: "real w * (2 / 5) \<le> ?r" and hi: "?r \<le> real w * (3 / 5)"
    unfolding Range_ok_def by blast+
  have r0: "0 \<le> ?r" using lo by (rule order_trans[rotated]) simp
  have x: "x = \<lfloor>?r\<rfloor>" using c r0 by (simp add: float_to_int_def Let_def split: if_splits)
  have "real_of_int x \<le> ?r" unfolding x by (rule of_int_floor_le)
  also have "\<dots> < real w" using hi w by simp
  finally have "x < int w" by simp
  moreover have "0 \<le> x" unfolding x using r0 by simp
  ultimately show ?thesis by simp
qed

lemma initialization_output_in_map:
  assumes ok: "Range_ok rng" and i: "initialization rng d dims seeds = Inr st0"
  shows "\<forall>q \<in> set (outputList st0). point_ok dims q"
proof -
  from initialization_valid[OF i] have w: "0 < Width dims" and h: "0 < Height dims" by simp_all
  from i show ?thesis
  proof (cases rule: initialization_cases)
    case (first gw gh fx fy pg)
    from first_coordinate[OF ok w first(4)] first_coordinate[OF ok h first(5)]
      float_to_int_range[OF first(4)] float_to_int_range[OF first(5)]
    show ?thesis by (simp add: first(7) in_map_def point_ok_def)
  next
    case (seeded gw gh)
    from seed_loop_fields[OF seeded(4)] show ?thesis by simp
  qed
qed

lemma candidate_step_output_in_map:
  assumes p: "\<forall>q \<in> set (outputList s). point_ok dims q"
    and c: "candidate_step rng d dims cs maxN cur s = Inr (s', leave)"
  shows "\<forall>q \<in> set (outputList s'). point_ok dims q"
  using c
proof (cases rule: candidate_step_cases)
  case rejected
  then show ?thesis using p by simp
next
  case (accepted newPoint pg)
  from GenerateRandomPointAroundPoint_range[OF accepted(1)] accepted(2)
  have "point_ok dims newPoint" by (simp add: InsideRectangle_origin point_ok_def)
  then show ?thesis using p by (simp add: accepted(5))
qed

lemma output_in_map:
  assumes ok: "Range_ok rng"
    and i: "initialization rng d dims seeds = Inr st0"
    and run: "generation_loop rng d dims cs maxN st0 = Some (Inr st)"
  shows "\<forall>q \<in> set (outputList st). point_ok dims q"
proof (rule loop_invariant[where P = "\<lambda>s. \<forall>q \<in> set (outputList s). point_ok dims q", OF run])
  show "\<forall>q \<in> set (outputList st0). point_ok dims q"
    by (rule initialization_output_in_map[OF ok i])
qed (auto intro: candidate_step_output_in_map[rule_format])

lemma InsideSection_ellipse: "shape s = eEllipse \<Longrightarrow> \<not> InsideSection p s"
  by (simp add: InsideSection_def)

lemma ExcludeSection_ellipse: "shape s = eEllipse \<Longrightarrow> ExcludeSection pts s = pts"
  by (simp add: ExcludeSection_def InsideSection_ellipse)

lemma set_foldl_ExcludeSection:
  "set (foldl ExcludeSection pts secs) =
     {p \<in> set pts. \<forall>s \<in> set secs. \<not> InsideSection p s}"
  by (induction secs arbitrary: pts) (auto simp: ExcludeSection_def)

text \<open>
  Claim C2. When the random source keeps the contract of \<^verbatim>\<open>Range\<close>, every point of the
  list that \<^verbatim>\<open>GeneratePoints\<close> returns has \<open>0 \<le> x < Width\<close> and \<open>0 \<le> y < Height\<close> of the
  map dimensions; this includes the first point, which is drawn at random when there are no
  existing points. (A call whose map has a zero dimension returns no list.)
\<close>

theorem generated_points_in_bounds:
  assumes "Range_ok rng"
    and "GeneratePoints rng minimumDistance mapDimensions excludedSections existingPoints
           maxNumberOfPoints = Some (Inr points)"
    and "p \<in> set points"
  shows "0 \<le> fst p \<and> fst p < int (Width mapDimensions) \<and>
         0 \<le> snd p \<and> snd p < int (Height mapDimensions)"
proof -
  from assms(2) obtain st0 st where
    i: "initialization rng minimumDistance mapDimensions existingPoints = Inr st0"
    and run: "generation_loop rng minimumDistance mapDimensions
        (pointGridCellSize minimumDistance) maxNumberOfPoints st0 = Some (Inr st)"
    and ps: "points = foldl ExcludeSection (outputList st) excludedSections"
    by (rule GeneratePoints_result)
  have "p \<in> set (outputList st)" using assms(3) by (simp add: ps set_foldl_ExcludeSection)
  with output_in_map[OF assms(1) i run] have "point_ok mapDimensions p" by blast
  then show ?thesis by (simp add: in_map_def point_ok_def)
qed

theorem generated_points_in_bounds_witness:
  "Range_ok Range_min \<and>
   GeneratePoints Range_min 10 \<lparr>Width = 30, Height = 30\<rparr> [] [] MAX_INT =
     Some (Inr [(12, 12), (22, 12)]) \<and>
   (22, 12) \<in> set [(12, 12), (22, 12) :: vector2di] \<and>
   0 \<le> fst (22 :: int, 12 :: int) \<and>
   fst (22 :: int, 12 :: int) < int (Width \<lparr>Width = 30, Height = 30\<rparr>) \<and>
   0 \<le> snd (22 :: int, 12 :: int) \<and>
   snd (22 :: int, 12 :: int) < int (Height \<lparr>Width = 30, Height = 30\<rparr>)"
  using generated_points_in_bounds[OF Range_ok_min runB_plain, of "(22, 12)"]
    runB_plain Range_ok_min
  by simp

section \<open>Excluded sections\<close>

text \<open>
  Claim C6. An excluded section of shape \<^verbatim>\<open>eEllipse\<close> contains no point according to
  \<^verbatim>\<open>InsideSection\<close>, so \<^verbatim>\<open>ExcludeSection\<close> removes nothing for it, and
  \<^verbatim>\<open>GeneratePoints\<close> returns what it returns when that section is left out of the list.
\<close>

theorem ellipse_section_ignored:
  assumes "shape s = eEllipse"
  shows "\<not> InsideSection p s \<and> ExcludeSection pts s = pts \<and>
     GeneratePoints rng minimumDistance mapDimensions (before @ s # after) existingPoints
       maxNumberOfPoints =
     GeneratePoints rng minimumDistance mapDimensions (before @ after) existingPoints
       maxNumberOfPoints"
  using assms
  by (simp add: InsideSection_ellipse ExcludeSection_ellipse GeneratePoints_def
        split: sum.splits option.splits)

theorem ellipse_section_ignored_witness:
  "shape \<lparr>shape = eEllipse, centerTile = (50, 50),
          dimensions = \<lparr>Width = 20, Height = 20\<rparr>\<rparr> = eEllipse \<and>
   \<not> InsideSection (50, 50) \<lparr>shape = eEllipse, centerTile = (50, 50),
          dimensions = \<lparr>Width = 20, Height = 20\<rparr>\<rparr> \<and>
   ExcludeSection [(50, 50)] \<lparr>shape = eEllipse, centerTile = (50, 50),
          dimensions = \<lparr>Width = 20, Height = 20\<rparr>\<rparr> = [(50, 50)] \<and>
   GeneratePoints Range_min 10 \<lparr>Width = 100, Height = 100\<rparr>
     ([] @ \<lparr>shape = eEllipse, centerTile = (50, 50),
             dimensions = \<lparr>Width = 20, Height = 20\<rparr>\<rparr> # []) [] MAX_INT =
   GeneratePoints Range_min 10 \<lparr>Width = 100, Height = 100\<rparr> ([] @ []) [] MAX_INT"
  using ellipse_section_ignored
    [of "\<lparr>shape = eEllipse, centerTile = (50, 50), dimensions = \<lparr>Width = 20, Height = 20\<rparr>\<rparr>"
        "(50, 50)" "[(50, 50)]" Range_min 10 "\<lparr>Width = 100, Height = 100\<rparr>" "[]" "[]" "[]"
        MAX_INT]
  by simp

lemma s32_id: "is_s32 z \<Longrightarrow> s32 z = z"
  by (simp add: is_s32_def s32_def)

lemma inside_interval:
  assumes c: "is_s32 c" and w: "is_u32 w" and o: "is_s32 (c - int (w div 2))"
    and x0: "0 \<le> x" and xs: "is_s32 x"
    and lo: "c - int (w div 2) \<le> x" and hi: "x < c - int (w div 2) + int w"
  shows "s32 (c - int (w div 2)) \<le> x \<and> u32 x < u32 (s32 (c - int (w div 2)) + int w)"
proof -
  have ux: "u32 x = x" using x0 xs by (simp add: u32_def is_s32_def)
  have "c - int (w div 2) + int w < 4294967296"
    using c w by (simp add: is_s32_def is_u32_def) linarith
  moreover have "0 \<le> c - int (w div 2) + int w" using hi x0 by linarith
  ultimately have "u32 (c - int (w div 2) + int w) = c - int (w div 2) + int w"
    by (simp add: u32_def)
  then show ?thesis using lo hi ux by (simp add: s32_id[OF o])
qed

text \<open>
  Claim C5, as stated, fails. \<^verbatim>\<open>InsideSection\<close> computes the offset in \<^verbatim>\<open>unsigned\<close>
  arithmetic and stores it in an \<^verbatim>\<open>int\<close>: for the section \<open>wide_section\<close> the offset
  \<open>- 2147483649\<close> becomes \<open>2147483647\<close>, no generated point is at or beyond it, and the
  point \<open>(12, 12)\<close> is returned although \<open>offset \<le> 12 < offset + 4294967294\<close> holds for
  both coordinates.
\<close>

theorem point_inside_wide_rectangle_is_returned:
  "GeneratePoints Range_min 10 \<lparr>Width = 30, Height = 30\<rparr> [wide_section] [] MAX_INT =
     Some (Inr [(12, 12), (22, 12)]) \<and>
   shape wide_section = eRectangle \<and>
   fst (centerTile wide_section) - int (Width (dimensions wide_section) div 2) \<le> 12 \<and>
   12 < fst (centerTile wide_section) - int (Width (dimensions wide_section) div 2)
          + int (Width (dimensions wide_section)) \<and>
   snd (centerTile wide_section) - int (Height (dimensions wide_section) div 2) \<le> 12 \<and>
   12 < snd (centerTile wide_section) - int (Height (dimensions wide_section) div 2)
          + int (Height (dimensions wide_section)) \<and>
   InsideSection (12, 12) wide_section = False"
  using runB[of "[wide_section]"]
  by (simp add: wide_section_def ExcludeSection_def InsideSection_def InsideRectangle_def
      s32_def u32_def)

text \<open>
  Claim C5, amended. When the random source keeps the contract of \<^verbatim>\<open>Range\<close>, no point of
  the list that \<^verbatim>\<open>GeneratePoints\<close> returns lies inside an excluded section of shape
  \<^verbatim>\<open>eRectangle\<close> whose offset \<open>center - dimensions div 2\<close> is a value of \<^verbatim>\<open>int\<close> (as are
  then all its fields, values of the 32-bit types of the code): not both
  \<open>offset.x \<le> p.x < offset.x + Width\<close> and \<open>offset.y \<le> p.y < offset.y + Height\<close>.
\<close>

theorem no_point_in_excluded_rectangle:
  assumes "Range_ok rng"
    and "GeneratePoints rng minimumDistance mapDimensions excludedSections existingPoints
           maxNumberOfPoints = Some (Inr points)"
    and "p \<in> set points" and "s \<in> set excludedSections" and "shape s = eRectangle"
    and "section_representable s"
  shows "\<not> (fst (centerTile s) - int (Width (dimensions s) div 2) \<le> fst p \<and>
            fst p < fst (centerTile s) - int (Width (dimensions s) div 2)
                      + int (Width (dimensions s)) \<and>
            snd (centerTile s) - int (Height (dimensions s) div 2) \<le> snd p \<and>
            snd p < snd (centerTile s) - int (Height (dimensions s) div 2)
                      + int (Height (dimensions s)))"
proof
  assume inside: "fst (centerTile s) - int (Width (dimensions s) div 2) \<le> fst p \<and>
            fst p < fst (centerTile s) - int (Width (dimensions s) div 2)
                      + int (Width (dimensions s)) \<and>
            snd (centerTile s) - int (Height (dimensions s) div 2) \<le> snd p \<and>
            snd p < snd (centerTile s) - int (Height (dimensions s) div 2)
                      + int (Height (dimensions s))"
  from assms(2) obtain st0 st where
    i: "initialization rng minimumDistance mapDimensions existingPoints = Inr st0"
    and run: "generation_loop rng minimumDistance mapDimensions
        (pointGridCellSize minimumDistance) maxNumberOfPoints st0 = Some (Inr st)"
    and ps: "points = foldl ExcludeSection (outputList st) excludedSections"
    by (rule GeneratePoints_result)
  have mem: "p \<in> set (outputList st)" and notin: "\<not> InsideSection p s"
    using assms(3,4) by (simp_all add: ps set_foldl_ExcludeSection)
  with output_in_map[OF assms(1) i run] have "point_ok mapDimensions p" by blast
  then have x0: "0 \<le> fst p" and y0: "0 \<le> snd p" and xs: "is_s32 (fst p)" and ys: "is_s32 (snd p)"
    by (simp_all add: point_ok_def in_map_def)
  from assms(6) have rep:
    "is_s32 (fst (centerTile s))" "is_u32 (Width (dimensions s))"
    "is_s32 (fst (centerTile s) - int (Width (dimensions s) div 2))"
    "is_s32 (snd (centerTile s))" "is_u32 (Height (dimensions s))"
    "is_s32 (snd (centerTile s) - int (Height (dimensions s) div 2))"
    by (simp_all add: section_representable_def)
  from inside have ix: "fst (centerTile s) - int (Width (dimensions s) div 2) \<le> fst p"
      "fst p < fst (centerTile s) - int (Width (dimensions s) div 2) + int (Width (dimensions s))"
    and iy: "snd (centerTile s) - int (Height (dimensions s) div 2) \<le> snd p"
      "snd p < snd (centerTile s) - int (Height (dimensions s) div 2) + int (Height (dimensions s))"
    by simp_all
  from inside_interval[OF rep(1-3) x0 xs ix] inside_interval[OF rep(4-6) y0 ys iy]
  have "InsideSection p s"
    by (simp add: InsideSection_def InsideRectangle_def assms(5))
  with notin show False by simp
qed

theorem no_point_in_excluded_rectangle_witness:
  "Range_ok Range_min \<and>
   GeneratePoints Range_min 10 \<lparr>Width = 30, Height = 30\<rparr>
     [\<lparr>shape = eRectangle, centerTile = (12, 12), dimensions = \<lparr>Width = 4, Height = 4\<rparr>\<rparr>]
     [] MAX_INT = Some (Inr [(22, 12)]) \<and>
   (22, 12) \<in> set [(22, 12) :: vector2di] \<and>
   \<lparr>shape = eRectangle, centerTile = (12, 12), dimensions = \<lparr>Width = 4, Height = 4\<rparr>\<rparr>
     \<in> set [\<lparr>shape = eRectangle, centerTile = (12, 12),
              dimensions = \<lparr>Width = 4, Height = 4\<rparr>\<rparr>] \<and>
   shape \<lparr>shape = eRectangle, centerTile = (12, 12), dimensions = \<lparr>Width = 4, Height = 4\<rparr>\<rparr>
     = eRectangle \<and>
   section_representable
     \<lparr>shape = eRectangle, centerTile = (12, 12), dimensions = \<lparr>Width = 4, Height = 4\<rparr>\<rparr> \<and>
   \<not> (12 - int (4 div 2) \<le> (22::int) \<and> (22::int) < 12 - int (4 div 2) + int 4 \<and>
      12 - int (4 div 2) \<le> (12::int) \<and> (12::int) < 12 - int (4 div 2) + int 4)"
proof -
  let ?s = "\<lparr>shape = eRectangle, centerTile = (12, 12), dimensions = \<lparr>Width = 4, Height = 4\<rparr>\<rparr>"
  have run: "GeneratePoints Range_min 10 \<lparr>Width = 30, Height = 30\<rparr> [?s] [] MAX_INT =
      Some (Inr [(22, 12)])"
    using runB[of "[?s]"]
    by (simp add: ExcludeSection_def InsideSection_def InsideRectangle_def s32_def u32_def)
  have rep: "section_representable ?s"
    by (simp add: section_representable_def is_s32_def is_u32_def)
  from no_point_in_excluded_rectangle[OF Range_ok_min run, of "(22, 12)" ?s]
  show ?thesis using run Range_ok_min rep by simp
qed

section \<open>The minimum distance in exact arithmetic\<close>

subsection \<open>Tiles and distances\<close>

lemma cell_pos: "0 < d \<Longrightarrow> 0 < pointGridCellSize d"
  by (simp add: pointGridCellSize_def)

lemma cell_diagonal: "pointGridCellSize d * sqrt 2 = of_int d"
  by (simp add: pointGridCellSize_def)

lemma tile_floor:
  assumes "float_div_to_int (of_int x) cs = Inr t" "0 < cs" "0 \<le> x"
  shows "t = \<lfloor>of_int x / cs\<rfloor>"
  using assms by (simp add: float_div_to_int_def float_to_int_def Let_def split: if_splits)

lemma PointToGridTile_floor:
  assumes "PointToGridTile p cs = Inr t" "0 < cs" "0 \<le> fst p" "0 \<le> snd p"
  shows "fst t = \<lfloor>of_int (fst p) / cs\<rfloor> \<and> snd t = \<lfloor>of_int (snd p) / cs\<rfloor>"
  using assms
  by (auto simp: PointToGridTile_def split: sum.splits dest: tile_floor)

lemma same_floor_close:
  fixes a b cs :: real
  assumes "0 < cs" "\<lfloor>a / cs\<rfloor> = \<lfloor>b / cs\<rfloor>"
  shows "\<bar>a - b\<bar> < cs"
proof -
  have "\<bar>a / cs - b / cs\<bar> < 1" using assms(2) by linarith
  then have "\<bar>(a - b) / cs\<bar> < 1" by (simp add: diff_divide_distrib)
  then show ?thesis using assms(1) by (simp add: abs_divide pos_divide_less_eq)
qed

lemma close_floor:
  fixes a b cs :: real
  assumes "0 < cs" "\<bar>a - b\<bar> < 2 * cs"
  shows "\<bar>\<lfloor>a / cs\<rfloor> - \<lfloor>b / cs\<rfloor>\<bar> \<le> 2"
proof -
  have "\<bar>(a - b) / cs\<bar> < 2" using assms by (simp add: pos_divide_less_eq)
  then have "\<bar>a / cs - b / cs\<bar> < 2" by (simp add: diff_divide_distrib)
  then show ?thesis by linarith
qed

lemma far_floor:
  fixes a b cs :: real
  assumes "0 < cs" "\<bar>\<lfloor>a / cs\<rfloor> - \<lfloor>b / cs\<rfloor>\<bar> = 2"
  shows "cs < \<bar>a - b\<bar>"
proof -
  have "1 < \<bar>a / cs - b / cs\<bar>" using assms(2) by linarith
  then have "1 < \<bar>(a - b) / cs\<bar>" by (simp add: diff_divide_distrib)
  then show ?thesis using assms(1) by (simp add: pos_less_divide_eq)
qed

lemma distance_sq:
  "(getDistanceFrom a b)\<^sup>2 =
     (of_int (fst a) - of_int (fst b))\<^sup>2 + (of_int (snd a) - of_int (snd b))\<^sup>2"
  unfolding getDistanceFrom_def
  by (simp add: power2_eq_square)

lemma distance_nonneg: "0 \<le> getDistanceFrom a b"
  unfolding getDistanceFrom_def by simp

lemma distance_commute: "getDistanceFrom a b = getDistanceFrom b a"
  unfolding getDistanceFrom_def
  by (simp add: algebra_simps)

lemma distance_coordinate:
  "\<bar>real_of_int (fst a) - of_int (fst b)\<bar> \<le> getDistanceFrom a b"
  "\<bar>real_of_int (snd a) - of_int (snd b)\<bar> \<le> getDistanceFrom a b"
proof -
  show "\<bar>real_of_int (fst a) - of_int (fst b)\<bar> \<le> getDistanceFrom a b"
    by (rule power2_le_imp_le) (simp_all add: distance_sq distance_nonneg)
  show "\<bar>real_of_int (snd a) - of_int (snd b)\<bar> \<le> getDistanceFrom a b"
    by (rule power2_le_imp_le) (simp_all add: distance_sq distance_nonneg)
qed

lemma sqrt2_cell: "0 < d \<Longrightarrow> of_int d < 2 * pointGridCellSize d"
proof -
  assume d: "0 < d"
  have "sqrt 2 < 2" by (rule sqrt2_less_2)
  then have "pointGridCellSize d * sqrt 2 < pointGridCellSize d * 2"
    using cell_pos[OF d] by simp
  then show ?thesis by (simp add: cell_diagonal)
qed

lemma same_tile_close:
  assumes d: "0 < d"
    and tp: "PointToGridTile p (pointGridCellSize d) = Inr t"
    and tq: "PointToGridTile q (pointGridCellSize d) = Inr t"
    and p: "0 \<le> fst p" "0 \<le> snd p" and q: "0 \<le> fst q" "0 \<le> snd q"
  shows "getDistanceFrom p q < of_int d"
proof -
  let ?cs = "pointGridCellSize d"
  note fp = PointToGridTile_floor[OF tp cell_pos[OF d] p]
  note fq = PointToGridTile_floor[OF tq cell_pos[OF d] q]
  have x: "\<bar>real_of_int (fst p) - of_int (fst q)\<bar> < ?cs"
    by (rule same_floor_close[OF cell_pos[OF d]]) (use fp fq in simp)
  have y: "\<bar>real_of_int (snd p) - of_int (snd q)\<bar> < ?cs"
    by (rule same_floor_close[OF cell_pos[OF d]]) (use fp fq in simp)
  have "sqrt ((real_of_int (fst p) - of_int (fst q))\<^sup>2 + (of_int (snd p) - of_int (snd q))\<^sup>2)
          < of_int d"
    by (rule real_sqrt_sum_squares_less) (use x y in \<open>simp_all add: pointGridCellSize_def\<close>)
  moreover have "getDistanceFrom p q =
      sqrt ((real_of_int (fst p) - of_int (fst q))\<^sup>2 + (of_int (snd p) - of_int (snd q))\<^sup>2)"
    unfolding getDistanceFrom_def by (simp add: power2_eq_square)
  ultimately show ?thesis by simp
qed

lemma close_tiles:
  assumes d: "0 < d"
    and tp: "PointToGridTile p (pointGridCellSize d) = Inr tp"
    and tq: "PointToGridTile q (pointGridCellSize d) = Inr tq"
    and p: "0 \<le> fst p" "0 \<le> snd p" and q: "0 \<le> fst q" "0 \<le> snd q"
    and close: "getDistanceFrom q p < of_int d"
  shows "\<bar>fst tq - fst tp\<bar> \<le> 2 \<and> \<bar>snd tq - snd tp\<bar> \<le> 2 \<and>
         \<not> (\<bar>fst tq - fst tp\<bar> = 2 \<and> \<bar>snd tq - snd tp\<bar> = 2)"
proof -
  let ?cs = "pointGridCellSize d"
  note cs = cell_pos[OF d]
  note fp = PointToGridTile_floor[OF tp cs p]
  note fq = PointToGridTile_floor[OF tq cs q]
  let ?dx = "real_of_int (fst q) - of_int (fst p)"
  let ?dy = "real_of_int (snd q) - of_int (snd p)"
  have dx: "\<bar>?dx\<bar> < 2 * ?cs" using distance_coordinate(1)[of q p] close sqrt2_cell[OF d] by linarith
  have dy: "\<bar>?dy\<bar> < 2 * ?cs" using distance_coordinate(2)[of q p] close sqrt2_cell[OF d] by linarith
  have x2: "\<bar>fst tq - fst tp\<bar> \<le> 2" using close_floor[OF cs dx] fp fq by simp
  have y2: "\<bar>snd tq - snd tp\<bar> \<le> 2" using close_floor[OF cs dy] fp fq by simp
  have "\<not> (\<bar>fst tq - fst tp\<bar> = 2 \<and> \<bar>snd tq - snd tp\<bar> = 2)"
  proof
    assume c: "\<bar>fst tq - fst tp\<bar> = 2 \<and> \<bar>snd tq - snd tp\<bar> = 2"
    have fx: "?cs < \<bar>?dx\<bar>" by (rule far_floor[OF cs]) (use c fp fq in simp)
    have fy: "?cs < \<bar>?dy\<bar>" by (rule far_floor[OF cs]) (use c fp fq in simp)
    have "?cs\<^sup>2 < ?dx\<^sup>2" using fx cs by (metis abs_ge_zero abs_of_pos power2_abs power_strict_mono pos2 less_imp_le)
    moreover have "?cs\<^sup>2 < ?dy\<^sup>2" using fy cs by (metis abs_ge_zero abs_of_pos power2_abs power_strict_mono pos2 less_imp_le)
    ultimately have "2 * ?cs\<^sup>2 < (getDistanceFrom q p)\<^sup>2" by (simp add: distance_sq)
    moreover have "2 * ?cs\<^sup>2 = (real_of_int d)\<^sup>2"
      by (simp add: pointGridCellSize_def power_divide)
    ultimately have "(real_of_int d)\<^sup>2 < (getDistanceFrom q p)\<^sup>2" by simp
    then have "real_of_int d < getDistanceFrom q p"
      by (rule power2_less_imp_less) (rule distance_nonneg)
    with close show False by simp
  qed
  with x2 y2 show ?thesis by simp
qed

subsection \<open>The neighbourhood scan\<close>

lemma around_loop_acc:
  "around_loop c pg ns acc = Inr pts \<Longrightarrow> set acc \<subseteq> set pts"
proof (induction ns arbitrary: acc)
  case Nil
  then show ?case by simp
next
  case (Cons n ns)
  then show ?case
    by (fastforce simp: Let_def split: if_splits sum.splits)
qed

lemma around_loop_covers:
  assumes "around_loop c pg ns acc = Inr pts" "n \<in> set ns" "n \<noteq> 4" "n \<noteq> 20"
    "InsideRectangle (tile_at c n) (0, 0) (gridDimensions pg)"
  shows "\<exists>v \<in> set pts. grid_read (grid pg) (tile_at c n) = Inr v"
  using assms(1,2)
proof (induction ns arbitrary: acc)
  case Nil
  then show ?case by simp
next
  case (Cons m ns)
  show ?case
  proof (cases "m = n")
    case True
    from Cons.prems(1) assms(3-5) obtain v where
      v: "grid_read (grid pg) (tile_at c n) = Inr v"
      and r: "around_loop c pg ns (acc @ [v]) = Inr pts"
      by (auto simp: True Let_def tile_at_def split: sum.splits)
    from around_loop_acc[OF r] have "v \<in> set pts" by auto
    with v show ?thesis by blast
  next
    case False
    with Cons.prems(2) have mem: "n \<in> set ns" by simp
    from Cons.prems(1) obtain acc' where "around_loop c pg ns acc' = Inr pts"
      by (auto simp: Let_def split: if_splits sum.splits)
    from Cons.IH[OF this mem] show ?thesis .
  qed
qed

lemma scanned_offsets:
  fixes ox oy :: int
  assumes "\<bar>ox\<bar> \<le> 2" "\<bar>oy\<bar> \<le> 2" "\<not> (\<bar>ox\<bar> = 2 \<and> \<bar>oy\<bar> = 2)"
  shows "\<exists>n. n \<in> set [1..<24] \<and> n \<noteq> 4 \<and> n \<noteq> 20 \<and>
             int (n mod 5) = ox + 2 \<and> int (n div 5) = oy + 2"
proof -
  define n where "n = nat ((oy + 2) * 5 + (ox + 2))"
  have ox: "0 \<le> ox + 2" "ox + 2 < 5" and oy: "0 \<le> oy + 2" "oy + 2 < 5" using assms by linarith+
  have n: "int n = (oy + 2) * 5 + (ox + 2)" using ox oy by (simp add: n_def)
  have m: "int n mod 5 = ox + 2" unfolding n using ox by presburger
  have dv: "int n div 5 = oy + 2" unfolding n using ox by presburger
  have m': "int (n mod 5) = ox + 2" using m by (simp add: zmod_int)
  have dv': "int (n div 5) = oy + 2" using dv by (simp add: zdiv_int)
  have "1 \<le> int n \<and> int n < 24 \<and> int n \<noteq> 4 \<and> int n \<noteq> 20"
    unfolding n using ox oy assms by presburger
  then have "1 \<le> n \<and> n < 24 \<and> n \<noteq> 4 \<and> n \<noteq> 20" by linarith
  then show ?thesis using m' dv' by auto
qed

lemma within_distance_False:
  "\<not> within_distance c d pts \<Longrightarrow> v \<in> set pts \<Longrightarrow> v \<noteq> (- 1, - 1) \<Longrightarrow>
     \<not> getDistanceFrom v c < of_int d"
  by (induction pts) (auto split: if_splits)

lemma grid_write_read:
  assumes "grid_write g t p = Inr g'"
  shows "grid_read g' t' = (if t' = t then Inr p else grid_read g t')"
proof -
  from assms have t: "0 \<le> fst t" "nat (fst t) < length g" "0 \<le> snd t"
      "nat (snd t) < length (g ! nat (fst t))"
    and g': "g' = g[nat (fst t) := (g ! nat (fst t))[nat (snd t) := p]]"
    by (auto simp: grid_write_def split: if_splits)
  show ?thesis
  proof (cases "t' = t")
    case True
    then show ?thesis using t by (simp add: grid_read_def g')
  next
    case False
    then have ne: "fst t' \<noteq> fst t \<or> snd t' \<noteq> snd t" by (auto simp: prod_eq_iff)
    show ?thesis
    proof (cases "0 \<le> fst t' \<and> 0 \<le> snd t'")
      case False
      then show ?thesis using \<open>t' \<noteq> t\<close> by (auto simp: grid_read_def)
    next
      case True
      then have nn: "nat (fst t') \<noteq> nat (fst t) \<or> nat (snd t') \<noteq> nat (snd t)"
        using ne t by auto
      show ?thesis
      proof (cases "nat (fst t') = nat (fst t)")
        case True
        with nn have "nat (snd t') \<noteq> nat (snd t)" by simp
        then show ?thesis using \<open>t' \<noteq> t\<close> True t by (simp add: grid_read_def g')
      next
        case False
        then show ?thesis using \<open>t' \<noteq> t\<close> by (simp add: grid_read_def g' nth_list_update)
      qed
    qed
  qed
qed

lemma tile_inside_grid:
  assumes d: "0 < d"
    and gw: "ceil_div_to_int (real (Width dims)) (pointGridCellSize d) = Inr gw"
    and gh: "ceil_div_to_int (real (Height dims)) (pointGridCellSize d) = Inr gh"
    and q: "in_map dims q"
    and t: "PointToGridTile q (pointGridCellSize d) = Inr t"
  shows "InsideRectangle t (0, 0) \<lparr>Width = nat (u32 gw), Height = nat (u32 gh)\<rparr>"
proof -
  let ?cs = "pointGridCellSize d"
  note cs = cell_pos[OF d]
  from q have q0: "0 \<le> fst q" "0 \<le> snd q" and qw: "fst q < int (Width dims)"
    and qh: "snd q < int (Height dims)" by (simp_all add: in_map_def)
  note ft = PointToGridTile_floor[OF t cs q0]
  have bound: "0 \<le> \<lfloor>real_of_int x / ?cs\<rfloor> \<and> \<lfloor>real_of_int x / ?cs\<rfloor> < \<lceil>real w / ?cs\<rceil>"
    if "0 \<le> x" "x < int w" for x w
  proof -
    have "real_of_int x / ?cs < real w / ?cs" using that cs by (simp add: divide_strict_right_mono)
    then have "\<lfloor>real_of_int x / ?cs\<rfloor> < \<lceil>real w / ?cs\<rceil>" by linarith
    moreover have "0 \<le> real_of_int x / ?cs" using that cs by simp
    then have "0 \<le> \<lfloor>real_of_int x / ?cs\<rfloor>" by simp
    ultimately show ?thesis by simp
  qed
  from ceil_div_value[OF gw] ceil_div_value[OF gh]
  have g: "gw = \<lceil>real (Width dims) / ?cs\<rceil>" "gh = \<lceil>real (Height dims) / ?cs\<rceil>"
    and s: "is_s32 gw" "is_s32 gh" by blast+
  from bound[OF q0(1) qw] bound[OF q0(2) qh] ft g
  have tx: "0 \<le> fst t" "fst t < gw" and ty: "0 \<le> snd t" "snd t < gh" by simp_all
  have ug: "u32 gw = gw" "u32 gh = gh" using tx ty s by (simp_all add: u32_def is_s32_def)
  have ut: "u32 (fst t) = fst t" "u32 (snd t) = snd t"
    using tx ty s by (simp_all add: u32_def is_s32_def)
  show ?thesis using tx ty by (simp add: InsideRectangle_def ug ut)
qed

lemma InNeighborhood_False:
  assumes "InNeighborhood p d pg cs = Inr False"
  obtains tp pts where "PointToGridTile p cs = Inr tp" "GetPointsAroundTile tp pg = Inr pts"
    "\<not> within_distance p d pts"
  using assms by (auto simp: InNeighborhood_def split: sum.splits)

lemma accepted_far:
  assumes d: "0 < d"
    and gw: "ceil_div_to_int (real (Width dims)) (pointGridCellSize d) = Inr gw"
    and gh: "ceil_div_to_int (real (Height dims)) (pointGridCellSize d) = Inr gh"
    and gd: "gridDimensions pg = \<lparr>Width = nat (u32 gw), Height = nat (u32 gh)\<rparr>"
    and p: "in_map dims p" and q: "in_map dims q" and sq: "stored d pg q"
    and nb: "InNeighborhood p d pg (pointGridCellSize d) = Inr False"
  shows "of_int d \<le> getDistanceFrom q p"
proof (rule ccontr)
  assume "\<not> of_int d \<le> getDistanceFrom q p"
  then have close: "getDistanceFrom q p < of_int d" by simp
  let ?cs = "pointGridCellSize d"
  from nb obtain tp pts where tp: "PointToGridTile p ?cs = Inr tp"
    and ar: "GetPointsAroundTile tp pg = Inr pts" and wd: "\<not> within_distance p d pts"
    by (rule InNeighborhood_False)
  from sq obtain tq where tq: "PointToGridTile q ?cs = Inr tq"
    and rq: "grid_read (grid pg) tq = Inr q" by (auto simp: stored_def)
  from p q have p0: "0 \<le> fst p" "0 \<le> snd p" and q0: "0 \<le> fst q" "0 \<le> snd q"
    by (simp_all add: in_map_def)
  from close_tiles[OF d tp tq p0 q0 close]
  have off: "\<bar>fst tq - fst tp\<bar> \<le> 2" "\<bar>snd tq - snd tp\<bar> \<le> 2"
    "\<not> (\<bar>fst tq - fst tp\<bar> = 2 \<and> \<bar>snd tq - snd tp\<bar> = 2)" by simp_all
  from scanned_offsets[OF off] obtain n where n: "n \<in> set [1..<24]" "n \<noteq> 4" "n \<noteq> 20"
    and nx: "int (n mod 5) = fst tq - fst tp + 2" and ny: "int (n div 5) = snd tq - snd tp + 2"
    by blast
  have tile: "tile_at tp n = tq" by (simp add: tile_at_def nx ny prod_eq_iff)
  have inside: "InsideRectangle (tile_at tp n) (0, 0) (gridDimensions pg)"
    unfolding tile gd by (rule tile_inside_grid[OF d gw gh q tq])
  from around_loop_covers[OF ar[unfolded GetPointsAroundTile_def] n inside]
  obtain v where v: "v \<in> set pts" "grid_read (grid pg) tq = Inr v" unfolding tile by blast
  with rq have "v = q" by simp
  moreover have "q \<noteq> (- 1, - 1)" using q0 by auto
  ultimately show False using within_distance_False[OF wd] v(1) close by blast
qed

subsection \<open>The invariant\<close>

lemma spacing_invariant_step:
  assumes d: "0 < d"
    and gw: "ceil_div_to_int (real (Width dims)) (pointGridCellSize d) = Inr gw"
    and gh: "ceil_div_to_int (real (Height dims)) (pointGridCellSize d) = Inr gh"
    and inv: "spacing_invariant d dims \<lparr>Width = nat (u32 gw), Height = nat (u32 gh)\<rparr> s"
    and c: "candidate_step rng d dims (pointGridCellSize d) maxN cur s = Inr (s', leave)"
  shows "spacing_invariant d dims \<lparr>Width = nat (u32 gw), Height = nat (u32 gh)\<rparr> s'"
  using c
proof (cases rule: candidate_step_cases)
  case rejected
  then show ?thesis using inv by (simp add: spacing_invariant_def)
next
  case (accepted p pg')
  let ?cs = "pointGridCellSize d"
  from inv have gd: "gridDimensions (pointGrid s) = \<lparr>Width = nat (u32 gw), Height = nat (u32 gh)\<rparr>"
    and out: "\<And>q. q \<in> set (outputList s) \<Longrightarrow> point_ok dims q \<and> stored d (pointGrid s) q"
    and sp: "sorted_wrt (\<lambda>a b. of_int d \<le> getDistanceFrom a b) (outputList s)"
    by (simp_all add: spacing_invariant_def)
  from GenerateRandomPointAroundPoint_range[OF accepted(1)] accepted(2)
  have pok: "point_ok dims p" by (simp add: InsideRectangle_origin point_ok_def)
  then have pm: "in_map dims p" by (simp add: point_ok_def)
  from accepted(4) obtain tp g where tp: "PointToGridTile p ?cs = Inr tp"
    and gwr: "grid_write (grid (pointGrid s)) tp p = Inr g"
    and pg': "pg' = (pointGrid s)\<lparr>grid := g\<rparr>"
    by (rule store_point_cases)
  have far: "of_int d \<le> getDistanceFrom q p" if "q \<in> set (outputList s)" for q
    using accepted_far[OF d gw gh gd pm _ _ accepted(3)] out[OF that] by (simp add: point_ok_def)
  have st_p: "stored d pg' p"
    unfolding stored_def pg' using tp grid_write_read[OF gwr, of tp] by auto
  have st_q: "stored d pg' q" if mem: "q \<in> set (outputList s)" for q
  proof -
    from out[OF mem] obtain tq where tq: "PointToGridTile q ?cs = Inr tq"
      and rq: "grid_read (grid (pointGrid s)) tq = Inr q" and qm: "in_map dims q"
      by (auto simp: stored_def point_ok_def)
    have "tq \<noteq> tp"
    proof
      assume "tq = tp"
      with tq have "PointToGridTile q ?cs = Inr tp" by simp
      from same_tile_close[OF d this tp] qm pm have "getDistanceFrom q p < of_int d"
        by (simp add: in_map_def)
      with far[OF mem] show False by simp
    qed
    then show ?thesis unfolding stored_def pg' using tq rq grid_write_read[OF gwr, of tq] by auto
  qed
  have "sorted_wrt (\<lambda>a b. of_int d \<le> getDistanceFrom a b) (outputList s @ [p])"
    using sp far by (simp add: sorted_wrt_append)
  then show ?thesis
    using gd out pok st_p st_q
    by (auto simp: spacing_invariant_def accepted(5) pg')
qed

lemma empty_grid_dims:
  "gridDimensions (empty_grid gw gh) = \<lparr>Width = nat (u32 gw), Height = nat (u32 gh)\<rparr>"
  by (simp add: empty_grid_def)

lemma store_point_stored:
  assumes "store_point pg p (pointGridCellSize d) = Inr pg'"
  shows "stored d pg' p"
proof -
  from assms obtain t g where t: "PointToGridTile p (pointGridCellSize d) = Inr t"
    and g: "grid_write (grid pg) t p = Inr g" and pg': "pg' = pg\<lparr>grid := g\<rparr>"
    by (rule store_point_cases)
  show ?thesis unfolding stored_def pg' using t grid_write_read[OF g, of t] by auto
qed

lemma initialization_spacing:
  assumes ok: "Range_ok rng" and i: "initialization rng d dims seeds = Inr st0"
  obtains gw gh where
    "ceil_div_to_int (real (Width dims)) (pointGridCellSize d) = Inr gw"
    "ceil_div_to_int (real (Height dims)) (pointGridCellSize d) = Inr gh"
    "spacing_invariant d dims \<lparr>Width = nat (u32 gw), Height = nat (u32 gh)\<rparr> st0"
proof -
  from initialization_valid[OF i] have w: "0 < Width dims" and h: "0 < Height dims" by simp_all
  from i show ?thesis
  proof (cases rule: initialization_cases)
    case (first gw gh fx fy pg)
    from first_coordinate[OF ok w first(4)] first_coordinate[OF ok h first(5)]
      float_to_int_range[OF first(4)] float_to_int_range[OF first(5)]
    have pok: "point_ok dims (fx, fy)" by (simp add: in_map_def point_ok_def)
    have "spacing_invariant d dims \<lparr>Width = nat (u32 gw), Height = nat (u32 gh)\<rparr> st0"
      using pok store_point_stored[OF first(6)] store_point_dims[OF first(6)]
      by (simp add: spacing_invariant_def first(7) empty_grid_dims)
    with first(2,3) show ?thesis by (rule that)
  next
    case (seeded gw gh)
    have "spacing_invariant d dims \<lparr>Width = nat (u32 gw), Height = nat (u32 gh)\<rparr> st0"
      using seed_loop_fields[OF seeded(4)] seed_loop_dims[OF seeded(4)]
      by (simp add: spacing_invariant_def empty_grid_dims)
    with seeded(2,3) show ?thesis by (rule that)
  qed
qed

lemma sorted_wrt_foldl_ExcludeSection:
  "sorted_wrt P pts \<Longrightarrow> sorted_wrt P (foldl ExcludeSection pts secs)"
  by (induction secs arbitrary: pts) (simp_all add: ExcludeSection_def sorted_wrt_filter)

text \<open>
  The minimum distance in exact arithmetic. With tiles computed in the real numbers, as in
  this model, and a random source that keeps the contract of \<^verbatim>\<open>Range\<close>, any two points at
  different positions of the returned list are at least \<^verbatim>\<open>minimumDistance\<close> apart: a point
  closer than that to a candidate is stored on one of the tiles that \<^verbatim>\<open>InNeighborhood\<close>
  reads. The proof rests on a tile being exactly \<open>d / sqrt 2\<close> wide (\<open>same_tile_close\<close>,
  \<open>close_tiles\<close>), which single precision does not give: there the tile of a coordinate is
  the truncation of a rounded quotient by a rounded cell size. The statement is therefore
  one about the idealized arithmetic only.
\<close>

lemma minimum_distance_in_exact_arithmetic:
  assumes "Range_ok rng"
    and "GeneratePoints rng minimumDistance mapDimensions excludedSections existingPoints
           maxNumberOfPoints = Some (Inr points)"
    and "i < length points" and "j < length points" and "i \<noteq> j"
  shows "of_int minimumDistance \<le> getDistanceFrom (points ! i) (points ! j)"
proof -
  let ?P = "\<lambda>a b. real_of_int minimumDistance \<le> getDistanceFrom a b"
  from assms(2) obtain st0 st where
    i: "initialization rng minimumDistance mapDimensions existingPoints = Inr st0"
    and run: "generation_loop rng minimumDistance mapDimensions
        (pointGridCellSize minimumDistance) maxNumberOfPoints st0 = Some (Inr st)"
    and ps: "points = foldl ExcludeSection (outputList st) excludedSections"
    by (rule GeneratePoints_result)
  from initialization_valid[OF i] have d: "0 < minimumDistance" by simp
  from assms(1) i obtain gw gh where
    gw: "ceil_div_to_int (real (Width mapDimensions)) (pointGridCellSize minimumDistance) = Inr gw"
    and gh: "ceil_div_to_int (real (Height mapDimensions)) (pointGridCellSize minimumDistance) = Inr gh"
    and inv0: "spacing_invariant minimumDistance mapDimensions
        \<lparr>Width = nat (u32 gw), Height = nat (u32 gh)\<rparr> st0"
    by (rule initialization_spacing)
  have "spacing_invariant minimumDistance mapDimensions
        \<lparr>Width = nat (u32 gw), Height = nat (u32 gh)\<rparr> st"
  proof (rule loop_invariant[where P = "spacing_invariant minimumDistance mapDimensions
        \<lparr>Width = nat (u32 gw), Height = nat (u32 gh)\<rparr>", OF run inv0])
    show "spacing_invariant minimumDistance mapDimensions
        \<lparr>Width = nat (u32 gw), Height = nat (u32 gh)\<rparr> s'"
      if "spacing_invariant minimumDistance mapDimensions
        \<lparr>Width = nat (u32 gw), Height = nat (u32 gh)\<rparr> s"
        "candidate_step rng minimumDistance mapDimensions (pointGridCellSize minimumDistance)
           maxNumberOfPoints cur s = Inr (s', leave)" for s s' leave cur
      using spacing_invariant_step[OF d gw gh that] .
    show "spacing_invariant minimumDistance mapDimensions
        \<lparr>Width = nat (u32 gw), Height = nat (u32 gh)\<rparr> (s\<lparr>processQueue := tl (processQueue s)\<rparr>)"
      if "spacing_invariant minimumDistance mapDimensions
        \<lparr>Width = nat (u32 gw), Height = nat (u32 gh)\<rparr> s" for s
      using that by (simp add: spacing_invariant_def)
  qed
  then have "sorted_wrt ?P (outputList st)" by (simp add: spacing_invariant_def)
  then have sp: "sorted_wrt ?P points" unfolding ps by (rule sorted_wrt_foldl_ExcludeSection)
  show ?thesis
  proof (cases "i < j")
    case True
    with sp assms(4) show ?thesis by (simp add: sorted_wrt_iff_nth_less)
  next
    case False
    with assms(5) have "j < i" by simp
    with sp assms(3) have "?P (points ! j) (points ! i)" by (simp add: sorted_wrt_iff_nth_less)
    then show ?thesis by (simp add: distance_commute)
  qed
qed

section \<open>The sentinel\<close>

lemma grid_write_cells:
  assumes "grid_write g t p = Inr g'" "row \<in> set g'" "c \<in> set row"
  shows "c = p \<or> (\<exists>r \<in> set g. c \<in> set r)"
proof -
  from assms(1) have i: "nat (fst t) < length g"
    and g': "g' = g[nat (fst t) := (g ! nat (fst t))[nat (snd t) := p]]"
    by (auto simp: grid_write_def split: if_splits)
  from assms(2) have "row = (g ! nat (fst t))[nat (snd t) := p] \<or> row \<in> set g"
    unfolding g' using set_update_subset_insert[of g "nat (fst t)"] by blast
  then show ?thesis
  proof
    assume "row = (g ! nat (fst t))[nat (snd t) := p]"
    with assms(3) have "c = p \<or> c \<in> set (g ! nat (fst t))"
      using set_update_subset_insert[of "g ! nat (fst t)" "nat (snd t)" p] by blast
    moreover have "g ! nat (fst t) \<in> set g" using i by simp
    ultimately show ?thesis by blast
  next
    assume "row \<in> set g"
    with assms(3) show ?thesis by blast
  qed
qed

lemma store_point_cells:
  assumes "store_point pg p cs = Inr pg'" "row \<in> set (grid pg')" "c \<in> set row"
  shows "c = p \<or> (\<exists>r \<in> set (grid pg). c \<in> set r)"
proof -
  from assms(1) obtain t g where g: "grid_write (grid pg) t p = Inr g" and pg': "pg' = pg\<lparr>grid := g\<rparr>"
    by (rule store_point_cases)
  from assms(2) have "row \<in> set g" by (simp add: pg')
  from grid_write_cells[OF g this assms(3)] show ?thesis .
qed

lemma seed_loop_cells:
  assumes "seed_loop cs pts st = Inr st'" "row \<in> set (grid (pointGrid st'))" "c \<in> set row"
  shows "c \<in> set pts \<or> (\<exists>r \<in> set (grid (pointGrid st)). c \<in> set r)"
  using assms
proof (induction pts arbitrary: st)
  case Nil
  then show ?case by auto
next
  case (Cons p pts)
  from Cons.prems(1) obtain pg where sp: "store_point (pointGrid st) p cs = Inr pg"
    and rest: "seed_loop cs pts (st\<lparr>processQueue := processQueue st @ [p], pointGrid := pg\<rparr>) = Inr st'"
    by (auto split: sum.splits)
  from Cons.IH[OF rest Cons.prems(2,3)]
  have "c \<in> set pts \<or> (\<exists>r \<in> set (grid pg). c \<in> set r)" by simp
  then show ?case
  proof
    assume "c \<in> set pts"
    then show ?thesis by simp
  next
    assume "\<exists>r \<in> set (grid pg). c \<in> set r"
    then obtain r where "r \<in> set (grid pg)" "c \<in> set r" by blast
    from store_point_cells[OF sp this] show ?thesis by auto
  qed
qed

lemma empty_grid_cells:
  "row \<in> set (grid (empty_grid gw gh)) \<Longrightarrow> c \<in> set row \<Longrightarrow> c = (- 1, - 1)"
  by (auto simp: empty_grid_def)

lemma initialization_cells:
  assumes ok: "Range_ok rng" and i: "initialization rng d dims seeds = Inr st0"
  shows "cells_ok dims seeds st0"
proof -
  from initialization_valid[OF i] have w: "0 < Width dims" and h: "0 < Height dims" by simp_all
  from i show ?thesis
  proof (cases rule: initialization_cases)
    case (first gw gh fx fy pg)
    from first_coordinate[OF ok w first(4)] first_coordinate[OF ok h first(5)]
    have "in_map dims (fx, fy)" by (simp add: in_map_def)
    then show ?thesis
      using store_point_cells[OF first(6)] empty_grid_cells
      unfolding cells_ok_def first(7) by fastforce
  next
    case (seeded gw gh)
    show ?thesis
      using seed_loop_cells[OF seeded(4)] seed_loop_fields[OF seeded(4)] empty_grid_cells
      unfolding cells_ok_def by fastforce
  qed
qed

lemma candidate_step_cells:
  assumes inv: "cells_ok dims seeds s"
    and c: "candidate_step rng d dims cs maxN cur s = Inr (s', leave)"
  shows "cells_ok dims seeds s'"
  using c
proof (cases rule: candidate_step_cases)
  case rejected
  then show ?thesis using inv by (simp add: cells_ok_def)
next
  case (accepted p pg)
  from GenerateRandomPointAroundPoint_range[OF accepted(1)] accepted(2)
  have pm: "in_map dims p" by (simp add: InsideRectangle_origin)
  show ?thesis
    using inv pm store_point_cells[OF accepted(4)]
    unfolding cells_ok_def accepted(5) by fastforce
qed

lemma loop_body_cells:
  assumes inv: "cells_ok dims seeds s" and b: "loop_body rng d dims cs maxN s = Inr s'"
  shows "cells_ok dims seeds s'"
proof -
  from b obtain cur rest s1 where
    cl: "candidate_loop rng d dims cs maxN cur POINTS_PER_LOOP s = Inr s1"
    and s': "s' = s1\<lparr>processQueue := tl (processQueue s1)\<rparr>"
    by (rule loop_body_cases)
  have "cells_ok dims seeds s1"
    by (rule candidate_loop_invariant[where P = "cells_ok dims seeds", OF _ cl inv])
       (rule candidate_step_cells)
  then show ?thesis by (simp add: s' cells_ok_def)
qed

lemma loop_step_cells:
  assumes inv: "cells_ok dims seeds st0"
    and k: "(loop_step rng d dims cs maxN ^^ k) (Inr st0) = Inr st"
  shows "cells_ok dims seeds st"
  using k
proof (induction k arbitrary: st)
  case 0
  then show ?case using inv by simp
next
  case (Suc k)
  define r where "r = (loop_step rng d dims cs maxN ^^ k) (Inr st0)"
  from Suc.prems have "loop_step rng d dims cs maxN r = Inr st" by (simp add: r_def)
  then obtain s where "r = Inr s" and b: "loop_body rng d dims cs maxN s = Inr st"
    by (cases r) (simp_all add: loop_step_def)
  then have s: "(loop_step rng d dims cs maxN ^^ k) (Inr st0) = Inr s" by (simp add: r_def)
  from loop_body_cells[OF Suc.IH[OF s] b] show ?case .
qed

text \<open>
  Claim C9. Take a call whose existing points lie in the map and whose random source keeps
  the contract of \<^verbatim>\<open>Range\<close>, and any state \<open>st\<close> that the generation reaches: after
  \<open>k\<close> passes through the \<^verbatim>\<open>while\<close> loop and \<open>j\<close> further iterations of the \<^verbatim>\<open>for\<close>
  loop around a point. Every tile \<open>c\<close> of the grid holds the sentinel \<open>(-1, -1)\<close> or a point
  that the call stored (an existing point or an accepted point); such a point lies in the
  map and differs from the sentinel. So does every point \<open>q\<close> that the call has stored.
\<close>

theorem grid_cells_never_hold_sentinel_points:
  assumes "Range_ok rng"
    and "\<forall>s \<in> set existingPoints. in_map mapDimensions s"
    and "initialization rng minimumDistance mapDimensions existingPoints = Inr st0"
    and "(loop_step rng minimumDistance mapDimensions (pointGridCellSize minimumDistance)
            maxNumberOfPoints ^^ k) (Inr st0) = Inr st1"
    and "candidate_loop rng minimumDistance mapDimensions (pointGridCellSize minimumDistance)
            maxNumberOfPoints currentPoint j st1 = Inr st"
    and "row \<in> set (grid (pointGrid st))" and "c \<in> set row"
    and "q \<in> set existingPoints \<or> q \<in> set (outputList st)"
  shows "(c = (- 1, - 1) \<or>
          (c \<noteq> (- 1, - 1) \<and> in_map mapDimensions c \<and>
           (c \<in> set existingPoints \<or> c \<in> set (outputList st)))) \<and>
         in_map mapDimensions q \<and> q \<noteq> (- 1, - 1)"
proof -
  have inv1: "cells_ok mapDimensions existingPoints st1"
    by (rule loop_step_cells[OF initialization_cells[OF assms(1,3)] assms(4)])
  have inv: "cells_ok mapDimensions existingPoints st"
    by (rule candidate_loop_invariant[where P = "cells_ok mapDimensions existingPoints",
          OF _ assms(5) inv1]) (rule candidate_step_cells)
  have m: "in_map mapDimensions x" if "x \<in> set existingPoints \<or> x \<in> set (outputList st)" for x
    using that assms(2) inv by (auto simp: cells_ok_def)
  have n: "x \<noteq> (- 1, - 1)" if "in_map mapDimensions x" for x
    using that by (auto simp: in_map_def)
  from inv assms(6,7) have "c = (- 1, - 1) \<or> c \<in> set existingPoints \<or> c \<in> set (outputList st)"
    unfolding cells_ok_def by blast
  then show ?thesis using m n assms(8) by blast
qed

theorem grid_cells_never_hold_sentinel_points_witness:
  "Range_ok Range_min \<and>
   list_all (in_map \<lparr>Width = 30, Height = 30\<rparr>) [] \<and>
   initialization Range_min 10 \<lparr>Width = 30, Height = 30\<rparr> [] =
     Inr \<lparr>processQueue = [(12, 12)], outputList = [(12, 12)],
          pointGrid = \<lparr>grid = gridB1, gridDimensions = \<lparr>Width = 5, Height = 5\<rparr>\<rparr>,
          numberOfPoints = 0, rngCalls = 2\<rparr> \<and>
   (loop_step Range_min 10 \<lparr>Width = 30, Height = 30\<rparr> (pointGridCellSize 10) MAX_INT ^^ Suc 0)
      (Inr \<lparr>processQueue = [(12, 12)], outputList = [(12, 12)],
          pointGrid = \<lparr>grid = gridB1, gridDimensions = \<lparr>Width = 5, Height = 5\<rparr>\<rparr>,
          numberOfPoints = 0, rngCalls = 2\<rparr>) =
     Inr \<lparr>processQueue = [(22, 12)], outputList = [(12, 12), (22, 12)],
          pointGrid = \<lparr>grid = gridB2, gridDimensions = \<lparr>Width = 5, Height = 5\<rparr>\<rparr>,
          numberOfPoints = 1, rngCalls = 62\<rparr> \<and>
   candidate_loop Range_min 10 \<lparr>Width = 30, Height = 30\<rparr> (pointGridCellSize 10) MAX_INT
      (22, 12) (Suc 0)
      \<lparr>processQueue = [(22, 12)], outputList = [(12, 12), (22, 12)],
       pointGrid = \<lparr>grid = gridB2, gridDimensions = \<lparr>Width = 5, Height = 5\<rparr>\<rparr>,
       numberOfPoints = 1, rngCalls = 62\<rparr> =
     Inr \<lparr>processQueue = [(22, 12)], outputList = [(12, 12), (22, 12)],
          pointGrid = \<lparr>grid = gridB2, gridDimensions = \<lparr>Width = 5, Height = 5\<rparr>\<rparr>,
          numberOfPoints = 1, rngCalls = 64\<rparr> \<and>
   gridB2 ! 3 \<in> set gridB2 \<and> (22, 12) \<in> set (gridB2 ! 3) \<and>
   (12, 12) \<in> set [(12, 12), (22, 12) :: vector2di] \<and>
   (22, 12) \<noteq> (- 1 :: int, - 1 :: int) \<and> in_map \<lparr>Width = 30, Height = 30\<rparr> (22, 12) \<and>
   (22, 12) \<in> set [(12, 12), (22, 12) :: vector2di] \<and>
   in_map \<lparr>Width = 30, Height = 30\<rparr> (12, 12) \<and> (12, 12) \<noteq> (- 1 :: int, - 1 :: int)"
proof -
  let ?initial = "\<lparr>processQueue = [(12, 12)], outputList = [(12, 12)],
          pointGrid = \<lparr>grid = gridB1, gridDimensions = \<lparr>Width = 5, Height = 5\<rparr>\<rparr>,
          numberOfPoints = 0, rngCalls = 2\<rparr>"
  let ?passed = "\<lparr>processQueue = [(22, 12)], outputList = [(12, 12), (22, 12)],
          pointGrid = \<lparr>grid = gridB2, gridDimensions = \<lparr>Width = 5, Height = 5\<rparr>\<rparr>,
          numberOfPoints = 1, rngCalls = 62\<rparr>"
  let ?reached = "\<lparr>processQueue = [(22, 12)], outputList = [(12, 12), (22, 12)],
          pointGrid = \<lparr>grid = gridB2, gridDimensions = \<lparr>Width = 5, Height = 5\<rparr>\<rparr>,
          numberOfPoints = 1, rngCalls = 64\<rparr>"
  have k: "(loop_step Range_min 10 \<lparr>Width = 30, Height = 30\<rparr> (pointGridCellSize 10) MAX_INT
      ^^ Suc 0) (Inr ?initial) = Inr ?passed"
    using bodyB1 by (simp add: loop_step_def)
  have j: "candidate_loop Range_min 10 \<lparr>Width = 30, Height = 30\<rparr> (pointGridCellSize 10) MAX_INT
      (22, 12) (Suc 0) ?passed = Inr ?reached"
    by (simp add: stepB_outside)
  have "gridB2 ! 3 \<in> set gridB2"
    by (rule nth_mem) (simp add: gridB2_def gridB1_def put_def unset_grid_def)
  then have row: "gridB2 ! 3 \<in> set (grid (pointGrid ?reached))" by simp
  have c: "(22, 12) \<in> set (gridB2 ! 3)"
    by (simp add: gridB2_def gridB1_def put_def unset_grid_def set_update_memI)
  have q: "(12, 12) \<in> set [] \<or> (12, 12) \<in> set (outputList ?reached)" by simp
  have s: "\<forall>s \<in> set []. in_map \<lparr>Width = 30, Height = 30\<rparr> s" by simp
  from grid_cells_never_hold_sentinel_points[OF Range_ok_min s initB k j row c q]
  show ?thesis using initB k j row c Range_ok_min by simp
qed

section \<open>Where the code departs from its documentation\<close>

subsection \<open>Two existing points on one tile\<close>

lemma initA:
  "initialization Range_min 10 \<lparr>Width = 20, Height = 20\<rparr> [(14, 10), (8, 10)] =
   Inr \<lparr>processQueue = [(14, 10), (8, 10)], outputList = [],
        pointGrid = \<lparr>grid = gridA1, gridDimensions = \<lparr>Width = 3, Height = 3\<rparr>\<rparr>,
        numberOfPoints = 0, rngCalls = 0\<rparr>"
  by (simp add: initialization_def grid_sizes_10 initial_state_def point_tiles_10 empty_grid_def
      eval_simps)

lemma stepA_outside1:
  "candidate_step Range_min 10 \<lparr>Width = 20, Height = 20\<rparr> (pointGridCellSize 10) MAX_INT (14, 10)
     \<lparr>processQueue = q, outputList = out, pointGrid = pg, numberOfPoints = k, rngCalls = n\<rparr> =
   Inr (\<lparr>processQueue = q, outputList = out, pointGrid = pg,
         numberOfPoints = k, rngCalls = n + 2\<rparr>, False)"
  by (simp add: candidate_step_def Range_min_point is_s32_def InsideRectangle_def u32_def Let_def)

lemma stepA_outside2:
  "candidate_step Range_min 10 \<lparr>Width = 20, Height = 20\<rparr> (pointGridCellSize 10) MAX_INT (18, 10)
     \<lparr>processQueue = q, outputList = out, pointGrid = pg, numberOfPoints = k, rngCalls = n\<rparr> =
   Inr (\<lparr>processQueue = q, outputList = out, pointGrid = pg,
         numberOfPoints = k, rngCalls = n + 2\<rparr>, False)"
  by (simp add: candidate_step_def Range_min_point is_s32_def InsideRectangle_def u32_def Let_def)

lemma stepA_accept:
  "k < 2147483647 \<Longrightarrow>
   candidate_step Range_min 10 \<lparr>Width = 20, Height = 20\<rparr> (pointGridCellSize 10) MAX_INT (8, 10)
     \<lparr>processQueue = q, outputList = out,
      pointGrid = \<lparr>grid = gridA1, gridDimensions = \<lparr>Width = 3, Height = 3\<rparr>\<rparr>,
      numberOfPoints = k, rngCalls = n\<rparr> =
   Inr (\<lparr>processQueue = q @ [(18, 10)], outputList = out @ [(18, 10)],
         pointGrid = \<lparr>grid = gridA2, gridDimensions = \<lparr>Width = 3, Height = 3\<rparr>\<rparr>,
         numberOfPoints = k + 1, rngCalls = n + 2\<rparr>, False)"
  by (simp add: eval_simps point_tiles_10 MAX_INT_def del: within_distance.simps(2))

lemma stepA_reject:
  "candidate_step Range_min 10 \<lparr>Width = 20, Height = 20\<rparr> (pointGridCellSize 10) MAX_INT (8, 10)
     \<lparr>processQueue = q, outputList = out,
      pointGrid = \<lparr>grid = gridA2, gridDimensions = \<lparr>Width = 3, Height = 3\<rparr>\<rparr>,
      numberOfPoints = k, rngCalls = n\<rparr> =
   Inr (\<lparr>processQueue = q, outputList = out,
         pointGrid = \<lparr>grid = gridA2, gridDimensions = \<lparr>Width = 3, Height = 3\<rparr>\<rparr>,
         numberOfPoints = k, rngCalls = n + 2\<rparr>, False)"
  by (simp add: eval_simps point_tiles_10 MAX_INT_def del: within_distance.simps(2))

lemma bodyA1:
  "loop_body Range_min 10 \<lparr>Width = 20, Height = 20\<rparr> (pointGridCellSize 10) MAX_INT
     \<lparr>processQueue = [(14, 10), (8, 10)], outputList = [],
      pointGrid = \<lparr>grid = gridA1,
                   gridDimensions = \<lparr>Width = 3, Height = 3\<rparr>\<rparr>,
      numberOfPoints = 0, rngCalls = 0\<rparr> =
   Inr \<lparr>processQueue = [(8, 10)], outputList = [],
      pointGrid = \<lparr>grid = gridA1,
                   gridDimensions = \<lparr>Width = 3, Height = 3\<rparr>\<rparr>,
      numberOfPoints = 0, rngCalls = 60\<rparr>"
  by (simp add: body_simps stepA_outside1)

lemma bodyA2:
  "loop_body Range_min 10 \<lparr>Width = 20, Height = 20\<rparr> (pointGridCellSize 10) MAX_INT
     \<lparr>processQueue = [(8, 10)], outputList = [],
      pointGrid = \<lparr>grid = gridA1,
                   gridDimensions = \<lparr>Width = 3, Height = 3\<rparr>\<rparr>,
      numberOfPoints = 0, rngCalls = 60\<rparr> =
   Inr \<lparr>processQueue = [(18, 10)], outputList = [(18, 10)],
      pointGrid = \<lparr>grid = gridA2,
                   gridDimensions = \<lparr>Width = 3, Height = 3\<rparr>\<rparr>,
      numberOfPoints = 1, rngCalls = 120\<rparr>"
  by (simp add: body_simps stepA_accept stepA_reject)

lemma bodyA3:
  "loop_body Range_min 10 \<lparr>Width = 20, Height = 20\<rparr> (pointGridCellSize 10) MAX_INT
     \<lparr>processQueue = [(18, 10)], outputList = [(18, 10)],
      pointGrid = \<lparr>grid = gridA2,
                   gridDimensions = \<lparr>Width = 3, Height = 3\<rparr>\<rparr>,
      numberOfPoints = 1, rngCalls = 120\<rparr> =
   Inr \<lparr>processQueue = [], outputList = [(18, 10)],
      pointGrid = \<lparr>grid = gridA2,
                   gridDimensions = \<lparr>Width = 3, Height = 3\<rparr>\<rparr>,
      numberOfPoints = 1, rngCalls = 180\<rparr>"
  by (simp add: body_simps stepA_outside2)

lemma loopA:
  "generation_loop Range_min 10 \<lparr>Width = 20, Height = 20\<rparr> (pointGridCellSize 10) MAX_INT
     \<lparr>processQueue = [(14, 10), (8, 10)], outputList = [],
      pointGrid = \<lparr>grid = gridA1,
                   gridDimensions = \<lparr>Width = 3, Height = 3\<rparr>\<rparr>,
      numberOfPoints = 0, rngCalls = 0\<rparr> =
   Some (Inr \<lparr>processQueue = [], outputList = [(18, 10)],
      pointGrid = \<lparr>grid = gridA2,
                   gridDimensions = \<lparr>Width = 3, Height = 3\<rparr>\<rparr>,
      numberOfPoints = 1, rngCalls = 180\<rparr>)"
  unfolding generation_loop_def
  apply (subst while_option_step)
   apply (simp add: loop_cond_def MAX_INT_def)
  apply (simp only: loop_step_def sum.case bodyA1)
  apply (subst while_option_step)
   apply (simp add: loop_cond_def MAX_INT_def)
  apply (simp only: loop_step_def sum.case bodyA2)
  apply (subst while_option_step)
   apply (simp add: loop_cond_def MAX_INT_def)
  apply (simp only: loop_step_def sum.case bodyA3)
  apply (rule while_option_done)
  apply (simp add: loop_cond_def)
  done

text \<open>
  Claim C4 fails on the code. The existing points \<open>(14, 10)\<close> and \<open>(8, 10)\<close> are on the same
  tile of the grid, the second replaces the first there, and the call returns \<open>(18, 10)\<close>,
  which is at distance 4 from the existing point \<open>(14, 10)\<close> with a minimum distance of 10.
\<close>

theorem point_generated_too_close_to_seed:
  "GeneratePoints Range_min 10 \<lparr>Width = 20, Height = 20\<rparr> [] [(14, 10), (8, 10)] MAX_INT =
     Some (Inr [(18, 10)]) \<and>
   getDistanceFrom (18, 10) (14, 10) < 10"
proof -
  have "getDistanceFrom (18, 10) (14, 10) < 10"
    using distance_less_iff[of "(18, 10)" "(14, 10)" 10] by simp
  then show ?thesis by (simp add: GeneratePoints_def initA loopA)
qed

subsection \<open>A cap on the number of points\<close>

lemma initC:
  "initialization Range_min 10 \<lparr>Width = 100, Height = 100\<rparr> [(10, 10), (50, 50)] =
   Inr \<lparr>processQueue = [(10, 10), (50, 50)], outputList = [],
        pointGrid = \<lparr>grid = gridC0, gridDimensions = \<lparr>Width = 15, Height = 15\<rparr>\<rparr>,
        numberOfPoints = 0, rngCalls = 0\<rparr>"
  by (simp add: initialization_def grid_sizes_10 initial_state_def point_tiles_10 empty_grid_def
      eval_simps)

lemma stepC1:
  "k < 2147483647 \<Longrightarrow>
   candidate_step Range_min 10 \<lparr>Width = 100, Height = 100\<rparr> (pointGridCellSize 10) 2 (10, 10)
     \<lparr>processQueue = q, outputList = out,
      pointGrid = \<lparr>grid = gridC0, gridDimensions = \<lparr>Width = 15, Height = 15\<rparr>\<rparr>,
      numberOfPoints = k, rngCalls = n\<rparr> =
   Inr (\<lparr>processQueue = q @ [(20, 10)], outputList = out @ [(20, 10)],
         pointGrid = \<lparr>grid = gridC1, gridDimensions = \<lparr>Width = 15, Height = 15\<rparr>\<rparr>,
         numberOfPoints = k + 1, rngCalls = n + 2\<rparr>, True)"
  by (simp add: eval_simps point_tiles_10 MAX_INT_def del: within_distance.simps(2))

lemma stepC2:
  "k < 2147483647 \<Longrightarrow>
   candidate_step Range_min 10 \<lparr>Width = 100, Height = 100\<rparr> (pointGridCellSize 10) 2 (50, 50)
     \<lparr>processQueue = q, outputList = out,
      pointGrid = \<lparr>grid = gridC1, gridDimensions = \<lparr>Width = 15, Height = 15\<rparr>\<rparr>,
      numberOfPoints = k, rngCalls = n\<rparr> =
   Inr (\<lparr>processQueue = q @ [(60, 50)], outputList = out @ [(60, 50)],
         pointGrid = \<lparr>grid = gridC2, gridDimensions = \<lparr>Width = 15, Height = 15\<rparr>\<rparr>,
         numberOfPoints = k + 1, rngCalls = n + 2\<rparr>, True)"
  by (simp add: eval_simps point_tiles_10 MAX_INT_def del: within_distance.simps(2))

lemma bodyC1:
  "loop_body Range_min 10 \<lparr>Width = 100, Height = 100\<rparr> (pointGridCellSize 10) 2
     \<lparr>processQueue = [(10, 10), (50, 50)], outputList = [],
      pointGrid = \<lparr>grid = gridC0, gridDimensions = \<lparr>Width = 15, Height = 15\<rparr>\<rparr>,
      numberOfPoints = 0, rngCalls = 0\<rparr> =
   Inr \<lparr>processQueue = [(50, 50), (20, 10)], outputList = [(20, 10)],
      pointGrid = \<lparr>grid = gridC1, gridDimensions = \<lparr>Width = 15, Height = 15\<rparr>\<rparr>,
      numberOfPoints = 1, rngCalls = 2\<rparr>"
  by (simp add: body_simps stepC1)

lemma bodyC2:
  "loop_body Range_min 10 \<lparr>Width = 100, Height = 100\<rparr> (pointGridCellSize 10) 2
     \<lparr>processQueue = [(50, 50), (20, 10)], outputList = [(20, 10)],
      pointGrid = \<lparr>grid = gridC1, gridDimensions = \<lparr>Width = 15, Height = 15\<rparr>\<rparr>,
      numberOfPoints = 1, rngCalls = 2\<rparr> =
   Inr \<lparr>processQueue = [(20, 10), (60, 50)], outputList = [(20, 10), (60, 50)],
      pointGrid = \<lparr>grid = gridC2, gridDimensions = \<lparr>Width = 15, Height = 15\<rparr>\<rparr>,
      numberOfPoints = 2, rngCalls = 4\<rparr>"
  by (simp add: body_simps stepC2)

lemma loopC:
  "generation_loop Range_min 10 \<lparr>Width = 100, Height = 100\<rparr> (pointGridCellSize 10) 2
     \<lparr>processQueue = [(10, 10), (50, 50)], outputList = [],
      pointGrid = \<lparr>grid = gridC0, gridDimensions = \<lparr>Width = 15, Height = 15\<rparr>\<rparr>,
      numberOfPoints = 0, rngCalls = 0\<rparr> =
   Some (Inr \<lparr>processQueue = [(20, 10), (60, 50)], outputList = [(20, 10), (60, 50)],
      pointGrid = \<lparr>grid = gridC2, gridDimensions = \<lparr>Width = 15, Height = 15\<rparr>\<rparr>,
      numberOfPoints = 2, rngCalls = 4\<rparr>)"
  unfolding generation_loop_def
  apply (subst while_option_step)
   apply (simp add: loop_cond_def)
  apply (simp only: loop_step_def sum.case bodyC1)
  apply (subst while_option_step)
   apply (simp add: loop_cond_def)
  apply (simp only: loop_step_def sum.case bodyC2)
  apply (rule while_option_done)
  apply (simp add: loop_cond_def)
  done

text \<open>
  Claim C3 fails on the code. With the cap 2 and the existing points \<open>(10, 10)\<close> and
  \<open>(50, 50)\<close>, the first pass through the \<^verbatim>\<open>while\<close> loop accepts \<open>(20, 10)\<close> and then
  removes the first existing point from the front of the queue; the second pass generates
  \<open>(60, 50)\<close> around the second existing point, and it is part of the result.
\<close>

theorem capped_generation_leaves_first_seed:
  "(2::int) < MAX_INT \<and>
   GeneratePoints Range_min 10 \<lparr>Width = 100, Height = 100\<rparr> [] [(10, 10), (50, 50)] 2 =
     Some (Inr [(20, 10), (60, 50)]) \<and>
   (case initialization Range_min 10 \<lparr>Width = 100, Height = 100\<rparr> [(10, 10), (50, 50)] of
      Inl e \<Rightarrow> []
    | Inr st0 \<Rightarrow>
        (case loop_body Range_min 10 \<lparr>Width = 100, Height = 100\<rparr> (pointGridCellSize 10) 2 st0 of
           Inl e \<Rightarrow> []
         | Inr st1 \<Rightarrow> processQueue st1)) = [(50, 50), (20, 10)] \<and>
   GenerateRandomPointAroundPoint Range_min 2 (50, 50) 10 = Inr (60, 50)"
  by (simp add: GeneratePoints_def initC loopC bodyC1 MAX_INT_def Range_min_point is_s32_def)

subsection \<open>A map wider than high\<close>

text \<open>
  Claim C10 fails on the code. For a map of 100 by 10 the grid has 2 rows of 15 tiles; the
  first point \<open>(40, 4)\<close> is on tile \<open>(5, 0)\<close>, and the write to \<^verbatim>\<open>grid[5][0]\<close> is outside
  the 2 rows.
\<close>

theorem grid_index_out_of_range_on_wide_map:
  "GeneratePoints Range_min 10 \<lparr>Width = 100, Height = 10\<rparr> [] [] MAX_INT =
     Some (Inl VectorIndexOutOfRange)"
proof -
  have "initialization Range_min 10 \<lparr>Width = 100, Height = 10\<rparr> [] =
      Inl VectorIndexOutOfRange"
    by (simp add: initialization_def grid_sizes_10 initial_state_def Range_min_def float_to_int_def
        point_tiles_10 store_point_def empty_grid_def grid_write_def Let_def)
  then show ?thesis by (simp add: GeneratePoints_def)
qed

section \<open>The end of the generation\<close>

lemma grid_size_beyond_int:
  "ceil_div_to_int (real 3000000000) (pointGridCellSize 1) = Inl FloatToIntOutOfRange"
proof -
  have "1 \<le> sqrt 2" by simp
  then have le: "(3000000000::real) \<le> 3000000000 * sqrt 2" by simp
  have eq: "real 3000000000 / (real_of_int 1 / sqrt 2) = 3000000000 * sqrt 2" by simp
  have "(2147483647::real) < real 3000000000 / (real_of_int 1 / sqrt 2)"
    unfolding eq using le by linarith
  then have "2147483647 < \<lceil>real 3000000000 / (real_of_int 1 / sqrt 2)\<rceil>"
    by linarith
  then show ?thesis
    unfolding ceil_div_to_int_def float_to_int_def pointGridCellSize_def Let_def
    by simp
qed

text \<open>
  Claim C8, as stated, fails: a positive minimum distance and positive map dimensions do
  not make the call return a list. On a map of 3000000000 by 3000000000 with the minimum
  distance 1 the number of tiles in a row, above 4200000000, is not a value of \<^verbatim>\<open>int\<close>, and
  the conversion of \<^verbatim>\<open>ceil(mapDimensions.Width / pointGridCellSize)\<close> is the end of the
  defined behaviour. On the map of 10 by 100 with the minimum distance 10 the grid has 15
  rows of 2 tiles and the first point \<open>(4, 40)\<close> is written to \<^verbatim>\<open>grid[0][5]\<close>, outside its row.
\<close>

theorem no_list_returned_for_positive_arguments:
  "(0::int) < 1 \<and>
   0 < Width \<lparr>Width = 3000000000, Height = 3000000000\<rparr> \<and>
   0 < Height \<lparr>Width = 3000000000, Height = 3000000000\<rparr> \<and>
   GeneratePoints Range_min 1 \<lparr>Width = 3000000000, Height = 3000000000\<rparr> [] [] MAX_INT =
     Some (Inl FloatToIntOutOfRange) \<and>
   (0::int) < 10 \<and>
   0 < Width \<lparr>Width = 10, Height = 100\<rparr> \<and> 0 < Height \<lparr>Width = 10, Height = 100\<rparr> \<and>
   GeneratePoints Range_min 10 \<lparr>Width = 10, Height = 100\<rparr> [] [] MAX_INT =
     Some (Inl VectorIndexOutOfRange)"
proof -
  have "initialization Range_min 1 \<lparr>Width = 3000000000, Height = 3000000000\<rparr> [] =
      Inl FloatToIntOutOfRange"
    using grid_size_beyond_int by (simp add: initialization_def)
  moreover have "initialization Range_min 10 \<lparr>Width = 10, Height = 100\<rparr> [] =
      Inl VectorIndexOutOfRange"
    by (simp add: initialization_def grid_sizes_10 initial_state_def Range_min_def float_to_int_def
        store_point_def PointToGridTile_def tiles_10 empty_grid_def grid_write_def Let_def)
  ultimately show ?thesis by (simp add: GeneratePoints_def)
qed

text \<open>
  Claim C8, amended. For every random source and all arguments the \<^verbatim>\<open>while\<close> loop makes
  finitely many passes and the call ends: each pass either accepts a point, which brings
  the counter closer to the cap (\<^verbatim>\<open>MAX_INT\<close> when no cap is given), or accepts none and
  removes the front of the queue. A call that ends with a list of points has left the loop
  with the process queue empty or with the cap reached, and the list is the output list of
  that state without the points of the excluded sections. A call that does not end with a
  list has met undefined behaviour.
\<close>

theorem generation_ends_with_queue_drained_or_cap_reached:
  "(\<exists>r. GeneratePoints rng minimumDistance mapDimensions excludedSections existingPoints
          maxNumberOfPoints = Some r) \<and>
   (\<forall>points. GeneratePoints rng minimumDistance mapDimensions excludedSections existingPoints
          maxNumberOfPoints = Some (Inr points) \<longrightarrow>
      (\<exists>st0 st. initialization rng minimumDistance mapDimensions existingPoints = Inr st0 \<and>
         generation_loop rng minimumDistance mapDimensions (pointGridCellSize minimumDistance)
           maxNumberOfPoints st0 = Some (Inr st) \<and>
         (processQueue st = [] \<or> maxNumberOfPoints \<le> numberOfPoints st) \<and>
         points = foldl ExcludeSection (outputList st) excludedSections))"
proof (intro conjI allI impI)
  show "\<exists>r. GeneratePoints rng minimumDistance mapDimensions excludedSections existingPoints
          maxNumberOfPoints = Some r"
    by (rule GeneratePoints_returns)
next
  fix points
  assume "GeneratePoints rng minimumDistance mapDimensions excludedSections existingPoints
          maxNumberOfPoints = Some (Inr points)"
  then obtain st0 st where
    i: "initialization rng minimumDistance mapDimensions existingPoints = Inr st0"
    and run: "generation_loop rng minimumDistance mapDimensions
        (pointGridCellSize minimumDistance) maxNumberOfPoints st0 = Some (Inr st)"
    and ps: "points = foldl ExcludeSection (outputList st) excludedSections"
    by (rule GeneratePoints_result)
  from generation_loop_stop[OF run] i run ps
  show "\<exists>st0 st. initialization rng minimumDistance mapDimensions existingPoints = Inr st0 \<and>
         generation_loop rng minimumDistance mapDimensions (pointGridCellSize minimumDistance)
           maxNumberOfPoints st0 = Some (Inr st) \<and>
         (processQueue st = [] \<or> maxNumberOfPoints \<le> numberOfPoints st) \<and>
         points = foldl ExcludeSection (outputList st) excludedSections"
    by blast
qed

theorem generation_ends_with_queue_drained_or_cap_reached_witness:
  "GeneratePoints Range_min 10 \<lparr>Width = 30, Height = 30\<rparr> [] [] MAX_INT =
     Some (Inr [(12, 12), (22, 12)]) \<and>
   (\<exists>st0 st. initialization Range_min 10 \<lparr>Width = 30, Height = 30\<rparr> [] = Inr st0 \<and>
      generation_loop Range_min 10 \<lparr>Width = 30, Height = 30\<rparr> (pointGridCellSize 10) MAX_INT
        st0 = Some (Inr st) \<and>
      processQueue st = [] \<and> numberOfPoints st < MAX_INT \<and>
      [(12, 12), (22, 12)] = foldl ExcludeSection (outputList st) []) \<and>
   GeneratePoints Range_min 10 \<lparr>Width = 100, Height = 100\<rparr> [] [(10, 10), (50, 50)] 2 =
     Some (Inr [(20, 10), (60, 50)]) \<and>
   (\<exists>st0 st. initialization Range_min 10 \<lparr>Width = 100, Height = 100\<rparr> [(10, 10), (50, 50)] =
        Inr st0 \<and>
      generation_loop Range_min 10 \<lparr>Width = 100, Height = 100\<rparr> (pointGridCellSize 10) 2
        st0 = Some (Inr st) \<and>
      processQueue st = [(20, 10), (60, 50)] \<and> 2 \<le> numberOfPoints st \<and>
      [(20, 10), (60, 50)] = foldl ExcludeSection (outputList st) [])"
proof -
  have c: "GeneratePoints Range_min 10 \<lparr>Width = 100, Height = 100\<rparr> [] [(10, 10), (50, 50)] 2 =
      Some (Inr [(20, 10), (60, 50)])"
    by (simp add: GeneratePoints_def initC loopC)
  from generation_ends_with_queue_drained_or_cap_reached
    [of Range_min 10 "\<lparr>Width = 30, Height = 30\<rparr>" "[]" "[]" MAX_INT]
    generation_ends_with_queue_drained_or_cap_reached
    [of Range_min 10 "\<lparr>Width = 100, Height = 100\<rparr>" "[]" "[(10, 10), (50, 50)]" 2]
  show ?thesis using runB_plain initB loopB c initC loopC by (simp add: MAX_INT_def)
qed

end
